theory Spec2Isabelle
  imports Main
begin

section \<open>Python values shared by the two modules\<close>

text \<open>
  Exceptions raised by the code under study. \<open>RelenvException\<close> is the package's own
  exception class and carries its message; \<open>KeyError\<close> carries the missing key.
  \<open>RuncmdError\<close> stands for whatever \<open>runcmd\<close> raises when a command fails,
  \<open>OSError\<close> for a failed file operation. \<open>FormatNotModelled\<close> marks a replacement
  field of \<open>str.format\<close> that uses a conversion, a format specification or an
  attribute or index lookup: the model of \<open>str.format\<close> below stops there.
\<close>

datatype error =
    RelenvException string
  | KeyError string
  | IndexError
  | ValueError
  | FormatNotModelled
  | OSError
  | RuncmdError "string list"

text \<open>
  A Python \<open>dict\<close> with string keys and values, in insertion order. Assigning to an
  existing key keeps the key's position; assigning to a new key appends it.
\<close>

type_synonym env = "(string \<times> string) list"

fun env_set :: "env \<Rightarrow> string \<Rightarrow> string \<Rightarrow> env" where
  "env_set [] k v = [(k, v)]"
| "env_set ((k', v') # e) k v = (if k' = k then (k, v) # e else (k', v') # env_set e k v)"

definition env_get :: "env \<Rightarrow> string \<Rightarrow> error + string" where
  "env_get e k = (case map_of e k of None \<Rightarrow> Inl (KeyError k) | Some v \<Rightarrow> Inr v)"

definition env_get_default :: "env \<Rightarrow> string \<Rightarrow> string \<Rightarrow> string" where
  "env_get_default e k d = (case map_of e k of None \<Rightarrow> d | Some v \<Rightarrow> v)"

section \<open>relenv/buildenv.py\<close>

text \<open>
  What \<open>buildenv\<close> reads from the interpreter and from \<open>relenv.common\<close>:
  \<open>sys.platform\<close>, the optional attribute \<open>sys.RELENV\<close>, \<open>os.environ.get("RUSTFLAGS")\<close>,
  the string form of \<open>work_dirs().toolchain\<close>, the result of \<open>get_triplet()\<close>, the
  string form of a \<open>pathlib\<close> join, and the constant \<open>MACOS_DEVELOPMENT_TARGET\<close>.
  The two functions of \<open>relenv.common\<close> may raise, so their results are sums.
\<close>

record sys_ctx =
  sys_platform :: string
  sys_RELENV :: "string option"
  environ_RUSTFLAGS :: "string option"
  work_dirs_toolchain :: "error + string"
  get_triplet :: "error + string"
  path_join :: "string \<Rightarrow> string \<Rightarrow> string"
  MACOS_DEVELOPMENT_TARGET :: string

datatype call = Call_is_relenv | Call_work_dirs | Call_get_triplet

definition is_relenv :: "sys_ctx \<Rightarrow> bool" where
  "is_relenv ctx = (sys_RELENV ctx \<noteq> None)"

text \<open>Truth value of the argument \<open>relenv_path\<close>: \<open>None\<close> and the empty string are falsy.\<close>

fun truthy :: "string option \<Rightarrow> bool" where
  "truthy None = False"
| "truthy (Some s) = (s \<noteq> [])"

text \<open>Lines 50 to 83: the dictionary literal, with \<open>toolchain\<close> already a string.\<close>

definition buildenv_mapping :: "sys_ctx \<Rightarrow> string \<Rightarrow> string \<Rightarrow> string \<Rightarrow> env" where
  "buildenv_mapping ctx toolchain triplet relenv_path =
    [(''RELENV_BUILDENV'', ''1''),
     (''TOOLCHAIN_PATH'', toolchain),
     (''TRIPLET'', triplet),
     (''RELENV_PATH'', relenv_path),
     (''CARGO_HOME'', toolchain @ ''/cargo''),
     (''RUSTUP_HOME'', toolchain @ ''/cargo/.rustup''),
     (''RUSTC'', toolchain @ ''/cargo/bin/rustc''),
     (''RUSTFLAGS'', (case environ_RUSTFLAGS ctx of None \<Rightarrow> [] | Some f \<Rightarrow> f)
        @ ''-C linker='' @ toolchain @ ''/bin/'' @ triplet @ ''-gcc''),
     (''CC'', toolchain @ ''/bin/'' @ triplet @ ''-gcc -no-pie''),
     (''CXX'', toolchain @ ''/bin/'' @ triplet @ ''-g++ -no-pie''),
     (''CFLAGS'', ''-I'' @ relenv_path @ ''/include -fPIC '' @ ''-I'' @ toolchain
        @ ''/sysroot/usr/include''),
     (''CPPFLAGS'', ''-I'' @ relenv_path @ ''/include '' @ ''-I'' @ toolchain @ ''/'' @ triplet
        @ ''/sysroot/usr/include''),
     (''CMAKE_CFLAGS'', ''-I'' @ relenv_path @ ''/include '' @ ''-I'' @ toolchain @ ''/''
        @ triplet @ ''/sysroot/usr/include '' @ ''-fPIC''),
     (''LDFLAGS'', ''-L'' @ relenv_path @ ''/lib -L'' @ toolchain @ ''/'' @ triplet
        @ ''/sysroot/lib '' @ ''-Wl,-rpath,'' @ relenv_path @ ''/lib ''
        @ ''-lzmq -lkrb5 -lgssapi''),
     (''PKG_CONFIG_PATH'', relenv_path @ ''/lib/pkgconfig:'' @ toolchain @ ''/'' @ triplet
        @ ''/lib/pkgconfig'')]"

text \<open>
  Lines 44 to 86, after \<open>relenv_path\<close> has been settled. The first component of the
  result lists the calls made so far, in order; the second is the exception raised or
  the mapping returned.
\<close>

definition buildenv_rest :: "sys_ctx \<Rightarrow> call list \<Rightarrow> string \<Rightarrow> call list \<times> (error + env)" where
  "buildenv_rest ctx tr relenv_path =
    (if sys_platform ctx \<noteq> ''linux''
     then (tr, Inl (RelenvException ''buildenv is only supported on Linux''))
     else
       (case work_dirs_toolchain ctx of
          Inl e \<Rightarrow> (tr @ [Call_work_dirs], Inl e)
        | Inr dirs_toolchain \<Rightarrow>
          (case get_triplet ctx of
             Inl e \<Rightarrow> (tr @ [Call_work_dirs, Call_get_triplet], Inl e)
           | Inr triplet \<Rightarrow>
             (let toolchain = path_join ctx dirs_toolchain triplet;
                  env = buildenv_mapping ctx toolchain triplet relenv_path;
                  env = (if sys_platform ctx = ''darwin''
                         then env_set env ''MACOS_DEVELOPMENT_TARGET'' (MACOS_DEVELOPMENT_TARGET ctx)
                         else env)
              in (tr @ [Call_work_dirs, Call_get_triplet, Call_get_triplet], Inr env)))))"

definition buildenv :: "sys_ctx \<Rightarrow> string option \<Rightarrow> call list \<times> (error + env)" where
  "buildenv ctx relenv_path =
    (if \<not> truthy relenv_path
     then
       (if \<not> is_relenv ctx
        then ([Call_is_relenv], Inl (RelenvException ''Not in a relenv environment''))
        else
          (case sys_RELENV ctx of
             None \<Rightarrow> ([Call_is_relenv], Inl (RelenvException ''Not in a relenv environment''))
           | Some p \<Rightarrow> buildenv_rest ctx [Call_is_relenv] p))
     else
       (case relenv_path of
          None \<Rightarrow> buildenv_rest ctx [] []
        | Some p \<Rightarrow> buildenv_rest ctx [] p))"

text \<open>Two concrete interpreters used to run the definitions.\<close>

definition linux_ctx :: sys_ctx where
  "linux_ctx =
    \<lparr> sys_platform = ''linux'', sys_RELENV = None, environ_RUSTFLAGS = None,
      work_dirs_toolchain = Inr ''/root/.local/relenv/toolchain'',
      get_triplet = Inr ''x86_64-linux-gnu'',
      path_join = (\<lambda>a b. a @ ''/'' @ b),
      MACOS_DEVELOPMENT_TARGET = ''10.15'' \<rparr>"

definition darwin_ctx :: sys_ctx where
  "darwin_ctx = linux_ctx \<lparr> sys_platform := ''darwin'', sys_RELENV := Some ''/opt/relenv'' \<rparr>"

section \<open>relenv/build/linux.py: environment and build procedures\<close>

text \<open>
  The attributes of \<open>relenv.build.common.Dirs\<close> that \<open>linux.py\<close> reads, each as the
  string its path formats to.
\<close>

record dirs =
  toolchain :: string
  prefix :: string
  source :: string
  tmpbuild :: string

subsection \<open>Python string operations\<close>

text \<open>\<open>" ".join(xs)\<close>\<close>

fun join_sp :: "string list \<Rightarrow> string" where
  "join_sp [] = []"
| "join_sp [x] = x"
| "join_sp (x # y # ys) = x @ '' '' @ join_sp (y # ys)"

text \<open>\<open>s.find(sub) > -1\<close>\<close>

fun str_contains :: "string \<Rightarrow> string \<Rightarrow> bool" where
  "str_contains sub [] = (sub = [])"
| "str_contains sub (c # cs) = (take (length sub) (c # cs) = sub \<or> str_contains sub cs)"

text \<open>
  \<open>template.format(prefix=p)\<close>, for a template that is data. The scanner of
  \<open>str.format\<close> reads literal text up to a brace; a doubled brace is a literal brace, a
  lone \<open>}\<close> is a \<open>ValueError\<close>; after \<open>{\<close> it reads a field up to \<open>}\<close>. With the
  single keyword argument \<open>prefix\<close> and no positional argument, the field \<open>prefix\<close> is
  replaced, an empty or numeric field is an \<open>IndexError\<close> and any other name a
  \<open>KeyError\<close>. Where the literal templates of the source have fixed fields, the
  functions below write the result of the substitution directly.
\<close>

datatype fmt_state = Lit | Open | Close | Field string

fun emit :: "string \<Rightarrow> error + string \<Rightarrow> error + string" where
  "emit s (Inl e) = Inl e"
| "emit s (Inr t) = Inr (s @ t)"

definition is_digit :: "char \<Rightarrow> bool" where
  "is_digit c = (c \<in> set ''0123456789'')"

definition resolve_field :: "string \<Rightarrow> string \<Rightarrow> error + string" where
  "resolve_field p name =
    (if name = ''prefix'' then Inr p
     else if list_all is_digit name
     then (if length name > 9 then Inl FormatNotModelled else Inl IndexError)
     else Inl (KeyError name))"

definition field_special :: "char \<Rightarrow> bool" where
  "field_special c = (c \<in> set ''!:.['')"

fun format_scan :: "string \<Rightarrow> fmt_state \<Rightarrow> string \<Rightarrow> error + string" where
  "format_scan p Lit [] = Inr []"
| "format_scan p Lit (c # cs) =
    (if c = CHR ''{'' then format_scan p Open cs
     else if c = CHR ''}'' then format_scan p Close cs
     else emit [c] (format_scan p Lit cs))"
| "format_scan p Open [] = Inl ValueError"
| "format_scan p Open (c # cs) =
    (if c = CHR ''{'' then emit ''{'' (format_scan p Lit cs)
     else if c = CHR ''}''
     then (case resolve_field p [] of
             Inl e \<Rightarrow> Inl e
           | Inr v \<Rightarrow> emit v (format_scan p Lit cs))
     else if field_special c then Inl FormatNotModelled
     else format_scan p (Field [c]) cs)"
| "format_scan p Close [] = Inl ValueError"
| "format_scan p Close (c # cs) =
    (if c = CHR ''}'' then emit ''}'' (format_scan p Lit cs) else Inl ValueError)"
| "format_scan p (Field f) [] = Inl ValueError"
| "format_scan p (Field f) (c # cs) =
    (if c = CHR ''}''
     then (case resolve_field p f of
             Inl e \<Rightarrow> Inl e
           | Inr v \<Rightarrow> emit v (format_scan p Lit cs))
     else if c = CHR ''{'' then Inl ValueError
     else if field_special c then Inl FormatNotModelled
     else format_scan p (Field (f @ [c])) cs)"

definition py_format_prefix :: "string \<Rightarrow> string \<Rightarrow> error + string" where
  "py_format_prefix template p = format_scan p Lit template"

definition brace_free :: "string \<Rightarrow> bool" where
  "brace_free s = (CHR ''{'' \<notin> set s \<and> CHR ''}'' \<notin> set s)"

fun ebind :: "error + 'a \<Rightarrow> ('a \<Rightarrow> error + 'b) \<Rightarrow> error + 'b" where
  "ebind (Inl e) f = Inl e"
| "ebind (Inr v) f = f v"

subsection \<open>Statements of a procedure\<close>

text \<open>
  A procedure receives the \<open>env\<close> dictionary by reference and assigns into it, and it
  calls \<open>runcmd\<close> and touches files. Its state is the current contents of that dictionary
  and the effects so far; it ends with the exception raised, if any. The dictionary the
  caller holds after the call is the one in the final state.

  \<open>runcmd\<close> is defined in \<open>relenv.build.common\<close>: what a call does is a parameter, a
  function from the call to the exception it raises, if any. It is taken to leave the
  dictionary it is given unchanged. A call records its positional argument and the keyword
  arguments \<open>env\<close>, \<open>stderr\<close> and \<open>stdout\<close>, each absent when the source does not pass it.
\<close>

type_synonym handle = nat

record runcmd_call =
  argv :: "string list"
  kw_env :: "env option"
  kw_stderr :: "handle option"
  kw_stdout :: "handle option"

datatype effect =
    Runcmd runcmd_call
  | TempFileWrite string string
  | FileAppend string string

record pstate =
  st_env :: env
  st_effects :: "effect list"

record proc_world =
  runcmd :: "runcmd_call \<Rightarrow> error option"
  setup_py_exists :: bool
  named_temporary_file :: "error + string"
  open_modules_setup :: "error option"

type_synonym stmt = "pstate \<Rightarrow> pstate \<times> error option"

fun run_stmts :: "stmt list \<Rightarrow> stmt" where
  "run_stmts [] s = (s, None)"
| "run_stmts (f # fs) s =
    (case f s of
       (s', Some e) \<Rightarrow> (s', Some e)
     | (s', None) \<Rightarrow> run_stmts fs s')"

text \<open>\<open>env[k] = rhs\<close>, the right-hand side evaluated first.\<close>

definition assign :: "string \<Rightarrow> (env \<Rightarrow> error + string) \<Rightarrow> stmt" where
  "assign k rhs s =
    (case rhs (st_env s) of
       Inl e \<Rightarrow> (s, Some e)
     | Inr v \<Rightarrow> (s\<lparr>st_env := env_set (st_env s) k v\<rparr>, None))"

text \<open>A local variable: its value is computed once, then the statements using it run.\<close>

definition let_val :: "(env \<Rightarrow> error + 'a) \<Rightarrow> ('a \<Rightarrow> stmt) \<Rightarrow> stmt" where
  "let_val rhs k s =
    (case rhs (st_env s) of
       Inl e \<Rightarrow> (s, Some e)
     | Inr v \<Rightarrow> k v s)"

definition call_runcmd :: "proc_world \<Rightarrow> (env \<Rightarrow> error + runcmd_call) \<Rightarrow> stmt" where
  "call_runcmd w mk s =
    (case mk (st_env s) of
       Inl e \<Rightarrow> (s, Some e)
     | Inr c \<Rightarrow> (s\<lparr>st_effects := st_effects s @ [Runcmd c]\<rparr>, runcmd w c))"

text \<open>\<open>runcmd(cmd)\<close>\<close>

definition plain :: "string list \<Rightarrow> env \<Rightarrow> error + runcmd_call" where
  "plain cmd e = Inr \<lparr>argv = cmd, kw_env = None, kw_stderr = None, kw_stdout = None\<rparr>"

text \<open>\<open>runcmd(cmd, env=env, stderr=logfp, stdout=logfp)\<close>\<close>

definition logged :: "handle \<Rightarrow> (env \<Rightarrow> error + string list) \<Rightarrow> env \<Rightarrow> error + runcmd_call" where
  "logged logfp cmd e =
    (case cmd e of
       Inl x \<Rightarrow> Inl x
     | Inr a \<Rightarrow> Inr \<lparr>argv = a, kw_env = Some e, kw_stderr = Some logfp, kw_stdout = Some logfp\<rparr>)"

definition when_stmt :: "bool \<Rightarrow> stmt list \<Rightarrow> stmt" where
  "when_stmt b fs s = (if b then run_stmts fs s else (s, None))"

definition effect_stmt :: "error + effect \<Rightarrow> stmt" where
  "effect_stmt r s =
    (case r of
       Inl e \<Rightarrow> (s, Some e)
     | Inr x \<Rightarrow> (s\<lparr>st_effects := st_effects s @ [x]\<rparr>, None))"

definition runcmd_calls :: "pstate \<Rightarrow> runcmd_call list" where
  "runcmd_calls s = concat (map (\<lambda>x. case x of Runcmd c \<Rightarrow> [c] | _ \<Rightarrow> []) (st_effects s))"

subsection \<open>populate_env\<close>

text \<open>
  Lines 28 to 70. The function returns nothing; the result here is the dictionary as the
  caller finds it afterwards, and the exception raised, if any.
\<close>

definition populate_env :: "env \<Rightarrow> dirs \<Rightarrow> env \<times> error option" where
  "populate_env env dirs =
    (case run_stmts
       [assign ''CC'' (\<lambda>e. ebind (env_get e ''RELENV_HOST'')
          (\<lambda>h. Inr (toolchain dirs @ ''/bin/'' @ h @ ''-gcc -no-pie''))),
        assign ''CXX'' (\<lambda>e. ebind (env_get e ''RELENV_HOST'')
          (\<lambda>h. Inr (toolchain dirs @ ''/bin/'' @ h @ ''-g++ -no-pie''))),
        assign ''PATH'' (\<lambda>e. ebind (env_get e ''PATH'')
          (\<lambda>p. Inr (toolchain dirs @ ''/bin/:'' @ prefix dirs @ ''/bin/:'' @ p))),
        let_val (\<lambda>e. ebind (env_get e ''RELENV_HOST'')
          (\<lambda>h. Inr [''-Wl,--build-id=sha1'',
                    ''-Wl,--rpath={prefix}/lib'',
                    ''-L{prefix}/lib'',
                    ''-L'' @ toolchain dirs @ ''/'' @ h @ ''/sysroot/lib'',
                    ''-static-libstdc++'']))
          (\<lambda>ldflags. assign ''LDFLAGS'' (\<lambda>e. py_format_prefix (join_sp ldflags) (prefix dirs))),
        let_val (\<lambda>e. ebind (env_get e ''RELENV_HOST'')
          (\<lambda>h. Inr [''-g'',
                    ''-I{prefix}/include'',
                    ''-I{prefix}/include/readline'',
                    ''-I{prefix}/include/ncursesw'',
                    ''-I'' @ toolchain dirs @ ''/'' @ h @ ''/sysroot/usr/include'']))
          (\<lambda>cflags. assign ''CFLAGS'' (\<lambda>e. py_format_prefix (join_sp cflags) (prefix dirs))),
        let_val (\<lambda>e. ebind (env_get e ''RELENV_HOST'')
          (\<lambda>h. Inr [''-I{prefix}/include'',
                    ''-I{prefix}/include/readline'',
                    ''-I{prefix}/include/ncursesw'',
                    ''-I'' @ toolchain dirs @ ''/'' @ h @ ''/sysroot/usr/include'']))
          (\<lambda>cpplags. run_stmts
             [assign ''CPPFLAGS'' (\<lambda>e. py_format_prefix (join_sp cpplags) (prefix dirs)),
              assign ''CXXFLAGS'' (\<lambda>e. py_format_prefix (join_sp cpplags) (prefix dirs))]),
        assign ''LD_LIBRARY_PATH'' (\<lambda>e. Inr ''{prefix}/lib''),
        assign ''PKG_CONFIG_PATH'' (\<lambda>e. Inr (prefix dirs @ ''/lib/pkgconfig''))]
       \<lparr>st_env = env, st_effects = []\<rparr> of
       (s, r) \<Rightarrow> (st_env s, r))"

subsection \<open>build_readline, build_zlib, build_zeromq\<close>

definition build_readline :: "proc_world \<Rightarrow> env \<Rightarrow> dirs \<Rightarrow> handle \<Rightarrow> pstate \<times> error option" where
  "build_readline w env dirs logfp =
    run_stmts
      [assign ''LDFLAGS'' (\<lambda>e. ebind (env_get e ''LDFLAGS'') (\<lambda>l. Inr (l @ '' -ltinfow''))),
       call_runcmd w (logged logfp (\<lambda>e.
         ebind (env_get e ''RELENV_HOST'') (\<lambda>h.
           if str_contains ''linux'' h
           then ebind (env_get e ''RELENV_BUILD'') (\<lambda>b.
                ebind (env_get e ''RELENV_HOST'') (\<lambda>h'.
                  Inr ([''./configure'', ''--prefix='' @ prefix dirs]
                       @ [''--build='' @ b, ''--host='' @ h'])))
           else Inr [''./configure'', ''--prefix='' @ prefix dirs]))),
       call_runcmd w (logged logfp (\<lambda>e. Inr [''make'', ''-j8''])),
       call_runcmd w (logged logfp (\<lambda>e. Inr [''make'', ''install'']))]
      \<lparr>st_env = env, st_effects = []\<rparr>"

definition build_zlib :: "proc_world \<Rightarrow> env \<Rightarrow> dirs \<Rightarrow> handle \<Rightarrow> pstate \<times> error option" where
  "build_zlib w env dirs logfp =
    run_stmts
      [assign ''CFLAGS'' (\<lambda>e. ebind (env_get e ''CFLAGS'') (\<lambda>c. Inr (''-fPIC '' @ c))),
       call_runcmd w (logged logfp (\<lambda>e.
         Inr [''./configure'',
              ''--prefix='' @ prefix dirs,
              ''--libdir='' @ prefix dirs @ ''/lib'',
              ''--shared''])),
       call_runcmd w (logged logfp (\<lambda>e. Inr [''make'', ''-no-pie'', ''-j8''])),
       call_runcmd w (logged logfp (\<lambda>e. Inr [''make'', ''install'']))]
      \<lparr>st_env = env, st_effects = []\<rparr>"

definition build_zeromq :: "proc_world \<Rightarrow> env \<Rightarrow> dirs \<Rightarrow> handle \<Rightarrow> pstate \<times> error option" where
  "build_zeromq w env dirs logfp =
    run_stmts
      [assign ''CFLAGS'' (\<lambda>e. Inr (''-fPIC '' @ env_get_default e ''CFLAGS'' [])),
       assign ''LDFLAGS'' (\<lambda>e. ebind (env_get e ''LDFLAGS'') (\<lambda>l. Inr (l @ '' -lbsd -lsodium''))),
       assign ''CPPFLAGS'' (\<lambda>e. ebind (env_get e ''CPPFLAGS'')
         (\<lambda>c. Inr (c @ '' -I'' @ prefix dirs @ ''/include''))),
       assign ''PKG_CONFIG_PATH'' (\<lambda>e. Inr (prefix dirs @ ''/lib/pkgconfig'')),
       assign ''LD_LIBRARY_PATH'' (\<lambda>e.
         Inr (prefix dirs @ ''/lib:'' @ env_get_default e ''LD_LIBRARY_PATH'' [])),
       call_runcmd w (logged logfp (\<lambda>e.
         ebind (env_get e ''RELENV_BUILD'') (\<lambda>b.
         ebind (env_get e ''RELENV_HOST'') (\<lambda>h.
           Inr [''./configure'',
                ''--prefix='' @ prefix dirs,
                ''--libdir='' @ prefix dirs @ ''/lib'',
                ''--build='' @ b,
                ''--host='' @ h,
                ''--with-libsodium''])))),
       call_runcmd w (logged logfp (\<lambda>e. Inr [''make'', ''-j8''])),
       call_runcmd w (logged logfp (\<lambda>e. Inr [''make'', ''install'']))]
      \<lparr>st_env = env, st_effects = []\<rparr>"

subsection \<open>build_python\<close>

text \<open>The module constant \<open>PATCH\<close>, line by line.\<close>

definition PATCH :: string where
  "PATCH = concat (map (\<lambda>l. l @ [CHR 0x0A])
    [''--- ./setup.py'',
     ''+++ ./setup.py'',
     ''@@ -664,6 +664,7 @@'',
     ''             self.failed.append(ext.name)'',
     '''',
     ''     def add_multiarch_paths(self):'',
     ''+        return'',
     ''         # Debian/Ubuntu multiarch support.'',
     ''         # https://wiki.ubuntu.com/MultiarchSpec'',
     ''         tmpfile = os.path.join(self.build_temp, '' @ [CHR 0x27] @ ''multiarch''
       @ [CHR 0x27] @ '')''])"

definition build_python :: "proc_world \<Rightarrow> env \<Rightarrow> dirs \<Rightarrow> handle \<Rightarrow> pstate \<times> error option" where
  "build_python w env dirs logfp =
    run_stmts
      [assign ''LDFLAGS'' (\<lambda>e. ebind (env_get e ''LDFLAGS'')
         (\<lambda>l. Inr (''-Wl,--rpath='' @ prefix dirs @ ''/lib '' @ l))),
       call_runcmd w (plain
         [''sed'', ''-i'',
          ''s/ac_cv_buggy_getaddrinfo=yes/ac_cv_buggy_getaddrinfo=no/g'',
          ''configure'']),
       call_runcmd w (plain
         [''sed'', ''-i'',
          ''s/ac_cv_enable_implicit_function_declaration_error=yes/''
            @ ''ac_cv_enable_implicit_function_declaration_error=no/g'',
          ''configure'']),
       when_stmt (setup_py_exists w)
         [let_val (\<lambda>e. named_temporary_file w)
            (\<lambda>patch_file_name. run_stmts
               [effect_stmt (Inr (TempFileWrite patch_file_name PATCH)),
                call_runcmd w (logged logfp
                  (\<lambda>e. Inr [''patch'', ''-p0'', ''-i'', patch_file_name]))])],
       assign ''OPENSSL_CFLAGS'' (\<lambda>e. Inr (''-I'' @ prefix dirs @ ''/include  -Wno-coverage-mismatch'')),
       assign ''OPENSSL_LDFLAGS'' (\<lambda>e. Inr (''-L'' @ prefix dirs @ ''/lib'')),
       assign ''CFLAGS'' (\<lambda>e. ebind (env_get e ''CFLAGS'')
         (\<lambda>c. Inr (''-Wno-coverage-mismatch '' @ c))),
       call_runcmd w (logged logfp (\<lambda>e.
         ebind (env_get e ''RELENV_BUILD'') (\<lambda>b.
         ebind (env_get e ''RELENV_HOST'') (\<lambda>h.
         ebind (env_get e ''RELENV_HOST_ARCH'') (\<lambda>ha.
         ebind (env_get e ''RELENV_BUILD_ARCH'') (\<lambda>ba.
         ebind (if ha \<noteq> ba
                then ebind (env_get e ''RELENV_NATIVE_PY'')
                       (\<lambda>py. Inr [''--with-build-python='' @ py])
                else Inr []) (\<lambda>cross.
           Inr ([''./configure'',
                 ''-v'',
                 ''--prefix='' @ prefix dirs,
                 ''--with-openssl='' @ prefix dirs,
                 ''--enable-optimizations'',
                 ''--with-ensurepip=no'',
                 ''--build='' @ b,
                 ''--host='' @ h,
                 ''--disable-test-modules'',
                 ''--with-ssl-default-suites=openssl'',
                 ''--with-builtin-hashlib-hashes=blake2,md5,sha1,sha2,sha3'',
                 ''--with-readline=readline'',
                 ''--with-pkg-config=yes'']
                @ cross
                @ [''ac_cv_file__dev_ptmx=yes'', ''ac_cv_file__dev_ptc=no''])))))))),
       call_runcmd w (plain
         [''sed'', ''-i'',
          ''s/#readline readline.c -lreadline -ltermcap/readline readline.c -lreadline -ltinfow/g'',
          ''Modules/Setup'']),
       effect_stmt (case open_modules_setup w of
                      Some e \<Rightarrow> Inl e
                    | None \<Rightarrow> Inr (FileAppend ''Modules/Setup''
                        (''*disabled*'' @ [CHR 0x0A] @ ''_tkinter'' @ [CHR 0x0A]
                         @ ''nsl'' @ [CHR 0x0A] @ ''nis'' @ [CHR 0x0A]))),
       call_runcmd w (logged logfp (\<lambda>e. Inr [''make'', ''-j8''])),
       call_runcmd w (logged logfp (\<lambda>e. Inr [''make'', ''install'']))]
      \<lparr>st_env = env, st_effects = []\<rparr>"

text \<open>Concrete inputs used to run the procedures.\<close>

definition env0 :: env where
  "env0 =
    [(''RELENV_HOST'', ''x86_64-linux-gnu''),
     (''RELENV_BUILD'', ''x86_64-linux-gnu''),
     (''RELENV_HOST_ARCH'', ''x86_64''),
     (''RELENV_BUILD_ARCH'', ''x86_64''),
     (''PATH'', ''/usr/bin''),
     (''LDFLAGS'', ''-L/b/lib''),
     (''CFLAGS'', ''-g''),
     (''CPPFLAGS'', ''-I/b/include'')]"

definition dirs0 :: dirs where
  "dirs0 = \<lparr>toolchain = ''/t'', prefix = ''/b'', source = ''/s'', tmpbuild = ''/tmp/b''\<rparr>"

definition world0 :: proc_world where
  "world0 =
    \<lparr>runcmd = (\<lambda>c. None), setup_py_exists = True,
     named_temporary_file = Inr ''/tmp/tmpab12_patch'', open_modules_setup = None\<rparr>"

text \<open>
  A statement keeps to a set of keys when it leaves every other key of the dictionary
  as it found it.
\<close>

definition keeps_to :: "string set \<Rightarrow> stmt \<Rightarrow> bool" where
  "keeps_to K f = (\<forall>s k. k \<notin> K \<longrightarrow> map_of (st_env (fst (f s))) k = map_of (st_env s) k)"

section \<open>relenv/build/linux.py: the registered build graph\<close>

text \<open>
  Lines 666 to 1002 register the steps of the linux build and three further versions of
  it. The values passed at each call are those of the source. The functions named at
  \<open>build_func\<close> and \<open>checkfunc\<close> are kept as references to them.
\<close>

datatype proc_ref =
    Ref_build_openssl | Ref_build_openssl_fips | Ref_build_sqlite | Ref_build_bzip2
  | Ref_build_gdbm | Ref_build_ncurses | Ref_build_libffi | Ref_build_zlib | Ref_build_krb
  | Ref_build_readline | Ref_build_openldap | Ref_build_sasl | Ref_build_libyaml
  | Ref_build_libsodium | Ref_build_libmd | Ref_build_libbsd | Ref_build_zeromq
  | Ref_build_python | Ref_finalize

datatype check_ref =
    Ref_tarball_version | Ref_github_version | Ref_sqlite_version | Ref_uuid_version
  | Ref_krb_version | Ref_python_version

text \<open>The \<open>download\<close> dictionary of a call; \<open>fallback_url\<close>, \<open>checkfunc\<close> and \<open>checkurl\<close> may be left out.\<close>

record download =
  url :: string
  fallback_url :: "string option"
  version :: string
  checksum :: string
  checkfunc :: "check_ref option"
  checkurl :: "string option"

text \<open>The arguments of one \<open>build.add\<close> call.\<close>

record step =
  name :: string
  build_func :: "proc_ref option"
  wait_on :: "string list"
  download :: "download option"

text \<open>
  The calls of lines 668 to 987, in order. \<open>build_version\<close> is the value of \<open>build.version\<close>
  that the \<open>python\<close> call reads.
\<close>

definition linux_adds :: "string \<Rightarrow> step list" where
  "linux_adds build_version =
   [\<lparr>name = ''openssl'',
      build_func = Some Ref_build_openssl,
      wait_on = [],
      download =
        Some \<lparr>url = ''https://github.com/openssl/openssl/releases/download/openssl-{version}/openssl-{version}.tar.gz'',
        fallback_url = Some ''https://woz.io/relenv/dependencies/openssl-{version}.tar.gz'',
        version = ''3.4.0'',
        checksum = ''5c2f33c3f3601676f225109231142cdc30d44127'',
        checkfunc = Some Ref_tarball_version,
        checkurl = Some ''https://www.openssl.org/source/''\<rparr>\<rparr>,
     \<lparr>name = ''openssl-fips-module'',
      build_func = Some Ref_build_openssl_fips,
      wait_on = [''openssl''],
      download =
        Some \<lparr>url = ''https://www.openssl.org/source/openssl-{version}.tar.gz'',
        fallback_url = Some ''https://woz.io/relenv/dependencies/openssl-{version}.tar.gz'',
        version = ''3.0.9'',
        checksum = ''b569725118c0603537c9a19449046b41b39627c8'',
        checkfunc = Some Ref_tarball_version,
        checkurl = Some ''https://www.openssl.org/source/''\<rparr>\<rparr>,
     \<lparr>name = ''libxcrypt'',
      build_func = None,
      wait_on = [],
      download =
        Some \<lparr>url = ''https://github.com/besser82/libxcrypt/releases/download/v{version}/libxcrypt-{version}.tar.xz'',
        fallback_url = None,
        version = ''4.4.36'',
        checksum = ''c040de2fd534f84082c9c42114ba11b4e1a67635'',
        checkfunc = Some Ref_github_version,
        checkurl = Some ''https://github.com/besser82/libxcrypt/releases/''\<rparr>\<rparr>,
     \<lparr>name = ''XZ'',
      build_func = None,
      wait_on = [],
      download =
        Some \<lparr>url = ''http://tukaani.org/xz/xz-{version}.tar.gz'',
        fallback_url = Some ''https://woz.io/relenv/dependencies/xz-{version}.tar.gz'',
        version = ''5.6.2'',
        checksum = ''0d6b10e4628fe08e19293c65e8dbcaade084a083'',
        checkfunc = Some Ref_tarball_version,
        checkurl = None\<rparr>\<rparr>,
     \<lparr>name = ''SQLite'',
      build_func = Some Ref_build_sqlite,
      wait_on = [],
      download =
        Some \<lparr>url = ''https://sqlite.org/2024/sqlite-autoconf-{version}.tar.gz'',
        fallback_url = Some ''https://woz.io/relenv/dependencies/sqlite-autoconf-{version}.tar.gz'',
        version = ''3470200'',
        checksum = ''40f0296080bb63f0321a5652477a6ab87c757aa2'',
        checkfunc = Some Ref_sqlite_version,
        checkurl = Some ''https://sqlite.org/''\<rparr>\<rparr>,
     \<lparr>name = ''bzip2'',
      build_func = Some Ref_build_bzip2,
      wait_on = [],
      download =
        Some \<lparr>url = ''https://sourceware.org/pub/bzip2/bzip2-{version}.tar.gz'',
        fallback_url = Some ''https://woz.io/relenv/dependencies/bzip2-{version}.tar.gz'',
        version = ''1.0.8'',
        checksum = ''bf7badf7e248e0ecf465d33c2f5aeec774209227'',
        checkfunc = Some Ref_tarball_version,
        checkurl = None\<rparr>\<rparr>,
     \<lparr>name = ''gdbm'',
      build_func = Some Ref_build_gdbm,
      wait_on = [],
      download =
        Some \<lparr>url = ''https://ftp.gnu.org/gnu/gdbm/gdbm-{version}.tar.gz'',
        fallback_url = Some ''https://woz.io/relenv/dependencies/gdbm-{version}.tar.gz'',
        version = ''1.24'',
        checksum = ''7bd455f28c9e4afacc042e0c712aac1b2391fef2'',
        checkfunc = Some Ref_tarball_version,
        checkurl = None\<rparr>\<rparr>,
     \<lparr>name = ''ncurses'',
      build_func = Some Ref_build_ncurses,
      wait_on = [],
      download =
        Some \<lparr>url = ''https://ftp.gnu.org/pub/gnu/ncurses/ncurses-{version}.tar.gz'',
        fallback_url = Some ''https://woz.io/relenv/dependencies/ncurses-{version}.tar.gz'',
        version = ''6.4'',
        checksum = ''bb5eb3f34b3ecd5bac8d0b58164b847f135b3d62'',
        checkfunc = Some Ref_tarball_version,
        checkurl = None\<rparr>\<rparr>,
     \<lparr>name = ''libffi'',
      build_func = Some Ref_build_libffi,
      wait_on = [],
      download =
        Some \<lparr>url = ''https://github.com/libffi/libffi/releases/download/v{version}/libffi-{version}.tar.gz'',
        fallback_url = Some ''https://woz.io/relenv/dependencies/libffi-{version}.tar.gz'',
        version = ''3.4.6'',
        checksum = ''19251dfee520dff42acefe36bfe76d7168071e01'',
        checkfunc = Some Ref_github_version,
        checkurl = Some ''https://github.com/libffi/libffi/releases/''\<rparr>\<rparr>,
     \<lparr>name = ''zlib'',
      build_func = Some Ref_build_zlib,
      wait_on = [],
      download =
        Some \<lparr>url = ''https://zlib.net/fossils/zlib-{version}.tar.gz'',
        fallback_url = Some ''https://woz.io/relenv/dependencies/zlib-{version}.tar.gz'',
        version = ''1.3.1'',
        checksum = ''f535367b1a11e2f9ac3bec723fb007fbc0d189e5'',
        checkfunc = Some Ref_tarball_version,
        checkurl = None\<rparr>\<rparr>,
     \<lparr>name = ''uuid'',
      build_func = None,
      wait_on = [],
      download =
        Some \<lparr>url = ''https://sourceforge.net/projects/libuuid/files/libuuid-{version}.tar.gz'',
        fallback_url = Some ''https://woz.io/relenv/dependencies/libuuid-{version}.tar.gz'',
        version = ''1.0.3'',
        checksum = ''46eaedb875ae6e63677b51ec583656199241d597'',
        checkfunc = Some Ref_uuid_version,
        checkurl = None\<rparr>\<rparr>,
     \<lparr>name = ''krb5'',
      build_func = Some Ref_build_krb,
      wait_on = [''openssl''],
      download =
        Some \<lparr>url = ''https://kerberos.org/dist/krb5/{version}/krb5-{version}.tar.gz'',
        fallback_url = Some ''https://woz.io/relenv/dependencies/krb5-{version}.tar.gz'',
        version = ''1.21'',
        checksum = ''e2ee531443122376ac8b62b3848d94376f646089'',
        checkfunc = Some Ref_krb_version,
        checkurl = Some ''https://kerberos.org/dist/krb5/''\<rparr>\<rparr>,
     \<lparr>name = ''readline'',
      build_func = Some Ref_build_readline,
      wait_on = [''ncurses''],
      download =
        Some \<lparr>url = ''https://ftp.gnu.org/gnu/readline/readline-{version}.tar.gz'',
        fallback_url = Some ''https://woz.io/relenv/dependencies/readline-{version}.tar.gz'',
        version = ''8.2.13'',
        checksum = ''5ffb6a334c2422acbe8f4d2cb11e345265c8d930'',
        checkfunc = Some Ref_tarball_version,
        checkurl = None\<rparr>\<rparr>,
     \<lparr>name = ''tirpc'',
      build_func = None,
      wait_on = [''krb5''],
      download =
        Some \<lparr>url = ''https://sourceforge.net/projects/libtirpc/files/libtirpc-{version}.tar.bz2'',
        fallback_url = Some ''https://woz.io/relenv/dependencies/libtirpc-{version}.tar.bz2'',
        version = ''1.3.6'',
        checksum = ''03352908461ad2122e5be4a678893aaa2ad2ac45'',
        checkfunc = Some Ref_tarball_version,
        checkurl = None\<rparr>\<rparr>,
     \<lparr>name = ''openldap'',
      build_func = Some Ref_build_openldap,
      wait_on = [''krb5''],
      download =
        Some \<lparr>url = ''https://www.openldap.org/software/download/OpenLDAP/openldap-release/openldap-{version}.tgz'',
        fallback_url = Some ''https://mirrors.jevincanders.net/openldap/openldap-release/openldap-{version}.tgz'',
        version = ''2.5.19'',
        checksum = ''efd9caaa1d36b2b940eb79f30e264b527a80e3c1'',
        checkfunc = Some Ref_tarball_version,
        checkurl = None\<rparr>\<rparr>,
     \<lparr>name = ''cyrus-sasl'',
      build_func = Some Ref_build_sasl,
      wait_on = [''openldap''],
      download =
        Some \<lparr>url = ''https://github.com/cyrusimap/cyrus-sasl/releases/download/cyrus-sasl-{version}/cyrus-sasl-{version}.tar.gz'',
        fallback_url = Some ''https://nexus.oit.gatech.edu/relenv/dependencies/cyrus-sasl-{version}.tar.gz'',
        version = ''2.1.28'',
        checksum = ''c96d2ccd891904ce0118fdfcdfbd47e37a1e7543'',
        checkfunc = Some Ref_tarball_version,
        checkurl = None\<rparr>\<rparr>,
     \<lparr>name = ''libyaml'',
      build_func = Some Ref_build_libyaml,
      wait_on = [],
      download =
        Some \<lparr>url = ''https://github.com/yaml/libyaml/releases/download/{version}/yaml-{version}.tar.gz'',
        fallback_url = Some ''https://nexus.oit.gatech.edu/relenv/dependencies/yaml-{version}.tar.gz'',
        version = ''0.2.5'',
        checksum = ''f49b39644caccabef049e3ec8859e8fdf94b686e'',
        checkfunc = Some Ref_tarball_version,
        checkurl = None\<rparr>\<rparr>,
     \<lparr>name = ''libsodium'',
      build_func = Some Ref_build_libsodium,
      wait_on = [],
      download =
        Some \<lparr>url = ''https://github.com/jedisct1/libsodium/releases/download/{version}-RELEASE/libsodium-{version}.tar.gz'',
        fallback_url = Some ''https://nexus.oit.gatech.edu/relenv/dependencies/libsodium-{version}.tar.gz'',
        version = ''1.0.20'',
        checksum = ''e37f50e66b4b90957cfef5792c6af6abf27ae9c6'',
        checkfunc = Some Ref_tarball_version,
        checkurl = None\<rparr>\<rparr>,
     \<lparr>name = ''libmd'',
      build_func = Some Ref_build_libmd,
      wait_on = [],
      download =
        Some \<lparr>url = ''https://archive.hadrons.org/software/libmd/libmd-{version}.tar.xz'',
        fallback_url = Some ''https://nexus.oit.gatech.edu/relenv/dependencies/libmd-{version}.tar.gz'',
        version = ''1.1.0'',
        checksum = ''72718d5ffad112b702ba84fd40900486f8179642'',
        checkfunc = Some Ref_tarball_version,
        checkurl = None\<rparr>\<rparr>,
     \<lparr>name = ''libbsd'',
      build_func = Some Ref_build_libbsd,
      wait_on = [''libmd''],
      download =
        Some \<lparr>url = ''https://libbsd.freedesktop.org/releases/libbsd-{version}.tar.xz'',
        fallback_url = Some ''https://nexus.oit.gatech.edu/relenv/dependencies/libbsd-{version}.tar.gz'',
        version = ''0.12.2'',
        checksum = ''c8f49920dec71e8e72f2b19f6c209b440a367d3a'',
        checkfunc = Some Ref_tarball_version,
        checkurl = None\<rparr>\<rparr>,
     \<lparr>name = ''zeromq'',
      build_func = Some Ref_build_zeromq,
      wait_on = [''libsodium'', ''libbsd''],
      download =
        Some \<lparr>url = ''https://github.com/zeromq/libzmq/releases/download/v{version}/zeromq-{version}.tar.gz'',
        fallback_url = Some ''https://nexus.oit.gatech.edu/relenv/dependencies/zeromq-{version}.tar.gz'',
        version = ''4.3.5'',
        checksum = ''bdbf686c8a40ba638e21cf74e34dbb425e108500'',
        checkfunc = Some Ref_tarball_version,
        checkurl = None\<rparr>\<rparr>,
     \<lparr>name = ''python'',
      build_func = Some Ref_build_python,
      wait_on = [''libyaml'', ''openssl'', ''libxcrypt'', ''XZ'', ''SQLite'', ''bzip2'', ''gdbm'', ''ncurses'', ''libffi'', ''zlib'', ''uuid'', ''krb5'', ''readline'', ''tirpc'', ''openldap'', ''cyrus-sasl'', ''zeromq''],
      download =
        Some \<lparr>url = ''https://www.python.org/ftp/python/{version}/Python-{version}.tar.xz'',
        fallback_url = Some ''https://woz.io/relenv/dependencies/Python-{version}.tar.xz'',
        version = build_version,
        checksum = ''401e6a504a956c8f0aab76c4f3ad9df601a83eb1'',
        checkfunc = Some Ref_python_version,
        checkurl = Some ''https://www.python.org/ftp/python/''\<rparr>\<rparr>,
     \<lparr>name = ''relenv-finalize'',
      build_func = Some Ref_finalize,
      wait_on = [''python'', ''openssl-fips-module''],
      download =
        None\<rparr>]"

subsection \<open>Builders and the registry as objects\<close>

text \<open>
  \<open>builds\<close>, the builders and their steps are objects of \<open>relenv.build.common\<close>: a
  builder is mutated by \<open>build.add\<close>, and the registry and the variable \<open>build\<close> refer to
  the same builder. So objects live in a store, a list indexed by address, and a builder
  holds the addresses of its steps in registration order.
\<close>

datatype graph_error =
    DuplicateStepError string
  | UnknownDependencyError string string
  | CycleError "string list"

record builder =
  platform :: string
  b_version :: string
  populate_env_ref :: "string option"
  recipes :: "(string \<times> nat) list"

record module_state =
  step_heap :: "step list"
  builder_heap :: "builder list"
  builds :: "(string \<times> nat list) list"

definition empty_state :: module_state where
  "empty_state = \<lparr>step_heap = [], builder_heap = [], builds = []\<rparr>"

fun register_variant :: "(string \<times> nat list) list \<Rightarrow> string \<Rightarrow> nat \<Rightarrow> (string \<times> nat list) list" where
  "register_variant [] p a = [(p, [a])]"
| "register_variant ((q, as) # r) p a =
    (if q = p then (q, as @ [a]) # r else (q, as) # register_variant r p a)"

text \<open>
  Modelled from the spec: \<open>builds.add\<close> of \<open>relenv.build.common\<close> is not among the
  sources. The registry maps a platform to the ordered sequence of its graph variants
  (section 3, Registry). \<open>builds.add(platform, populate_env=f, version=v)\<close> creates an
  empty graph for the platform with the graph-wide version \<open>v\<close>, registers it and returns
  it; \<open>builds.add(platform, builder=b)\<close> registers an existing graph.
\<close>

definition builds_add :: "module_state \<Rightarrow> string \<Rightarrow> string option \<Rightarrow> string \<Rightarrow> module_state \<times> nat" where
  "builds_add st p pe v =
    (let b = length (builder_heap st)
     in (st\<lparr>builder_heap := builder_heap st
              @ [\<lparr>platform = p, b_version = v, populate_env_ref = pe, recipes = []\<rparr>],
            builds := register_variant (builds st) p b\<rparr>, b))"

definition builds_add_builder :: "module_state \<Rightarrow> string \<Rightarrow> nat \<Rightarrow> module_state" where
  "builds_add_builder st p b = st\<lparr>builds := register_variant (builds st) p b\<rparr>"

text \<open>
  Modelled from the spec: \<open>Builder.add\<close> of \<open>relenv.build.common\<close> is not among the
  sources. \<open>add(name, buildProcedure?, download?, dependsOn=[])\<close> registers a step and
  fails with \<open>DuplicateStepError\<close> if the name already exists in the graph (section 4.1);
  registration is append-only and keeps insertion order (section 3).
\<close>

definition add :: "module_state \<Rightarrow> nat \<Rightarrow> step \<Rightarrow> graph_error + module_state" where
  "add st b s =
    (let bo = builder_heap st ! b
     in if name s \<in> fst ` set (recipes bo) then Inl (DuplicateStepError (name s))
        else Inr (st\<lparr>step_heap := step_heap st @ [s],
                     builder_heap := (builder_heap st)
                       [b := bo\<lparr>recipes := recipes bo @ [(name s, length (step_heap st))]\<rparr>]\<rparr>))"

text \<open>The store after a successful \<open>add\<close>.\<close>

definition add_state :: "module_state \<Rightarrow> nat \<Rightarrow> step \<Rightarrow> module_state" where
  "add_state st b s =
    st\<lparr>step_heap := step_heap st @ [s],
       builder_heap := (builder_heap st)
         [b := (builder_heap st ! b)
            \<lparr>recipes := recipes (builder_heap st ! b) @ [(name s, length (step_heap st))]\<rparr>]\<rparr>"

text \<open>A sequence of \<open>build.add\<close> statements: the first exception ends it.\<close>

fun add_all :: "module_state \<Rightarrow> nat \<Rightarrow> step list \<Rightarrow> graph_error + module_state" where
  "add_all st b [] = Inr st"
| "add_all st b (s # ss) =
    (case add st b s of
       Inl e \<Rightarrow> Inl e
     | Inr st' \<Rightarrow> add_all st' b ss)"

text \<open>
  Modelled from the spec: \<open>Builder.copy\<close> of \<open>relenv.build.common\<close> is not among the
  sources. \<open>copy(overrides)\<close> returns a new graph with the same step set; for each key
  in \<open>overrides\<close> (step name to new version and checksum) it replaces that step's
  download metadata in the copy only (section 4.1). The overrides also carry the
  graph-wide version of the copy, one variant per interpreter version (section 3). The
  copy gets step objects of its own, so no write through one graph can reach the other.
  An override for a step without download metadata, or for a name that is not a step,
  has nothing to replace.
\<close>

record overrides =
  ov_version :: "string option"
  ov_steps :: "(string \<times> string \<times> string) list"

definition override_step :: "(string \<times> string \<times> string) list \<Rightarrow> step \<Rightarrow> step" where
  "override_step ov s =
    (case map_of ov (name s) of
       None \<Rightarrow> s
     | Some (v, c) \<Rightarrow>
        (case download s of
           None \<Rightarrow> s
         | Some d \<Rightarrow> s\<lparr>download := Some (d\<lparr>version := v, checksum := c\<rparr>)\<rparr>))"

definition copy :: "module_state \<Rightarrow> nat \<Rightarrow> overrides \<Rightarrow> module_state \<times> nat" where
  "copy st b ov =
    (let bo = builder_heap st ! b;
         base = length (step_heap st);
         objs = map (\<lambda>(n, a). override_step (ov_steps ov) (step_heap st ! a)) (recipes bo);
         new = bo\<lparr>b_version := (case ov_version ov of None \<Rightarrow> b_version bo | Some v \<Rightarrow> v),
                  recipes := zip (map fst (recipes bo)) [base ..< base + length (recipes bo)]\<rparr>
     in (st\<lparr>step_heap := step_heap st @ objs,
            builder_heap := builder_heap st @ [new]\<rparr>,
         length (builder_heap st)))"

text \<open>
  \<open>build.copy(version=v, checksum=c)\<close> as lines 989 to 1002 call it: the new version is
  the graph-wide version of the copy and, with the checksum, the override of the
  interpreter step \<open>python\<close>.
\<close>

definition copy_version :: "module_state \<Rightarrow> nat \<Rightarrow> string \<Rightarrow> string \<Rightarrow> module_state \<times> nat" where
  "copy_version st b v c = copy st b \<lparr>ov_version = Some v, ov_steps = [(''python'', v, c)]\<rparr>"

text \<open>Lines 666 to 1002: what loading the module leaves in the store and the registry.\<close>

definition linux_module :: "graph_error + module_state" where
  "linux_module =
    (case builds_add empty_state ''linux'' (Some ''populate_env'') ''3.10.16'' of
       (st, build) \<Rightarrow>
        (case add_all st build (linux_adds (b_version (builder_heap st ! build))) of
           Inl e \<Rightarrow> Inl e
         | Inr st \<Rightarrow>
            (case copy_version st build ''3.11.11'' ''acf539109b024d3c5f1fc63d6e7f08cd294ba56d'' of
               (st, build) \<Rightarrow>
                (case copy_version (builds_add_builder st ''linux'' build) build
                        ''3.12.8'' ''8872c7a124c6970833e0bde4f25d6d7d61c6af6e'' of
                   (st, build) \<Rightarrow>
                    (case copy_version (builds_add_builder st ''linux'' build) build
                            ''3.13.1'' ''4b0c2a49a848c3c5d611416099636262a0b9090f'' of
                       (st, build) \<Rightarrow> Inr (builds_add_builder st ''linux'' build))))))"

subsection \<open>Reading a graph out of the store\<close>

record graph =
  g_platform :: string
  g_version :: string
  g_steps :: "(string \<times> step) list"

definition steps_of :: "module_state \<Rightarrow> nat \<Rightarrow> (string \<times> step) list" where
  "steps_of st b = map (\<lambda>(n, a). (n, step_heap st ! a)) (recipes (builder_heap st ! b))"

definition graph_of :: "module_state \<Rightarrow> nat \<Rightarrow> graph" where
  "graph_of st b =
    \<lparr>g_platform = platform (builder_heap st ! b),
     g_version = b_version (builder_heap st ! b),
     g_steps = steps_of st b\<rparr>"

definition variants :: "module_state \<Rightarrow> string \<Rightarrow> graph list" where
  "variants st p = (case map_of (builds st) p of None \<Rightarrow> [] | Some as \<Rightarrow> map (graph_of st) as)"

definition linux_variants :: "graph list" where
  "linux_variants = (case linux_module of Inl e \<Rightarrow> [] | Inr st \<Rightarrow> variants st ''linux'')"

text \<open>
  The store is well formed when every address it holds is allocated. Python references
  are always of this kind.
\<close>

definition wf_state :: "module_state \<Rightarrow> bool" where
  "wf_state st =
    ((\<forall>b \<in> set (builder_heap st). \<forall>a \<in> snd ` set (recipes b). a < length (step_heap st))
     \<and> (\<forall>as \<in> snd ` set (builds st). \<forall>b \<in> set as. b < length (builder_heap st)))"

text \<open>The graph as values: the steps of the source with the \<open>python\<close> version and checksum given.\<close>

definition linux_graph :: "string \<Rightarrow> string \<Rightarrow> graph" where
  "linux_graph v c =
    \<lparr>g_platform = ''linux'', g_version = v,
     g_steps = map (\<lambda>s. (name s, override_step [(''python'', v, c)] s)) (linux_adds ''3.10.16'')\<rparr>"

text \<open>The dependency relation of a graph: a step and a name in its \<open>wait_on\<close>.\<close>

definition step_names :: "graph \<Rightarrow> string list" where
  "step_names g = map fst (g_steps g)"

definition wait_rel :: "graph \<Rightarrow> (string \<times> string) set" where
  "wait_rel g = {(n, d). \<exists>s. (n, s) \<in> set (g_steps g) \<and> d \<in> set (wait_on s)}"

text \<open>Position of a name in the registration order.\<close>

fun index_of :: "string list \<Rightarrow> string \<Rightarrow> nat" where
  "index_of [] x = 0"
| "index_of (y # ys) x = (if x = y then 0 else Suc (index_of ys x))"

text \<open>Version and checksum of the download metadata of a named step of a graph.\<close>

definition step_version :: "graph \<Rightarrow> string \<Rightarrow> string option" where
  "step_version g n =
    (case map_of (g_steps g) n of
       None \<Rightarrow> None
     | Some s \<Rightarrow> (case download s of None \<Rightarrow> None | Some d \<Rightarrow> Some (version d)))"

definition step_checksum :: "graph \<Rightarrow> string \<Rightarrow> string option" where
  "step_checksum g n =
    (case map_of (g_steps g) n of
       None \<Rightarrow> None
     | Some s \<Rightarrow> (case download s of None \<Rightarrow> None | Some d \<Rightarrow> Some (checksum d)))"

text \<open>A small store used to run \<open>copy\<close>: one builder with two steps.\<close>

definition demo_state :: module_state where
  "demo_state =
    \<lparr>step_heap =
       [\<lparr>name = ''a'', build_func = None, wait_on = [],
         download = Some \<lparr>url = ''https://example.org/a-{version}.tar.gz'', fallback_url = None,
                          version = ''1.0'', checksum = ''aa'', checkfunc = None,
                          checkurl = None\<rparr>\<rparr>,
        \<lparr>name = ''b'', build_func = Some Ref_finalize, wait_on = [''a''], download = None\<rparr>],
     builder_heap =
       [\<lparr>platform = ''linux'', b_version = ''1.0'', populate_env_ref = None,
         recipes = [(''a'', 0), (''b'', 1)]\<rparr>],
     builds = [(''linux'', [0])]\<rparr>"

definition demo_overrides :: overrides where
  "demo_overrides = \<lparr>ov_version = Some ''2.0'', ov_steps = [(''a'', ''2.0'', ''bb'')]\<rparr>"

section \<open>The per-step pipeline and the scheduler\<close>

text \<open>
  Modelled from the spec: the executor of \<open>relenv.build.common\<close> (directory derivation,
  download and checksum verification, the per-step pipeline and the scheduler) is not
  among the sources. The definitions of this section follow sections 3, 4.2, 4.3, 6 and 7
  of the specification.
\<close>

subsection \<open>Directories and templates\<close>

text \<open>
  Modelled from the spec: the directory layout of section 6,
  \<open><root>/<platform>-<version>/{src,build,prefix,toolchain,logs}/<stepName>\<close>, a pure
  function of root, platform, version and step name (section 3).
\<close>

record directories =
  d_source :: string
  d_build_temp :: string
  d_prefix :: string
  d_toolchain :: string
  d_log_dir :: string

definition derive_dirs :: "string \<Rightarrow> string \<Rightarrow> string \<Rightarrow> string \<Rightarrow> directories" where
  "derive_dirs root plat ver step_name =
    (let base = root @ ''/'' @ plat @ ''-'' @ ver
     in \<lparr>d_source = base @ ''/src/'' @ step_name,
         d_build_temp = base @ ''/build/'' @ step_name,
         d_prefix = base @ ''/prefix/'' @ step_name,
         d_toolchain = base @ ''/toolchain/'' @ step_name,
         d_log_dir = base @ ''/logs/'' @ step_name\<rparr>)"

text \<open>
  Modelled from the spec: the version is substituted for every \<open>{version}\<close> placeholder of
  a template by a pure formatting function (sections 3 and 9). The counter is the number
  of characters of a placeholder still to be dropped.
\<close>

fun subst_from :: "string \<Rightarrow> nat \<Rightarrow> string \<Rightarrow> string" where
  "subst_from v k [] = []"
| "subst_from v k (c # cs) =
    (if 0 < k then subst_from v (k - 1) cs
     else if take 9 (c # cs) = ''{version}'' then v @ subst_from v 8 cs
     else c # subst_from v 0 cs)"

definition subst_version :: "string \<Rightarrow> string \<Rightarrow> string" where
  "subst_version template v = subst_from v 0 template"

text \<open>
  Modelled from the spec: the digest is compared with the checksum by a comparison of
  constant structure (section 4.3): every position is visited and the differences are
  accumulated, with no early exit.
\<close>

fun ct_differs :: "bool \<Rightarrow> string \<Rightarrow> string \<Rightarrow> bool" where
  "ct_differs acc [] [] = acc"
| "ct_differs acc (x # xs) (y # ys) = ct_differs (acc \<or> x \<noteq> y) xs ys"
| "ct_differs acc [] (y # ys) = True"
| "ct_differs acc (x # xs) [] = True"

definition ct_equal :: "string \<Rightarrow> string \<Rightarrow> bool" where
  "ct_equal a b = (\<not> ct_differs False a b)"

subsection \<open>The pipeline of one step\<close>

text \<open>
  What the pipeline meets outside the program: what a fetch of a URL returns (nothing on
  a network or transport failure), the digest of an artifact, whether the build procedure
  of a step succeeds, and the root of the work directories.
\<close>

record exec_world =
  fetch :: "string \<Rightarrow> string option"
  digest :: "string \<Rightarrow> string"
  build_ok :: "string \<Rightarrow> bool"
  root_dir :: string

datatype phase = Download_phase | Verify_phase | Build_phase

datatype cause = DownloadError | ChecksumMismatchError | BuildProcedureError

record build_error =
  be_step :: string
  be_phase :: phase
  be_cause :: cause

datatype outcome = Done | Error build_error

datatype pipeline_event =
    EnsureDirs directories
  | Fetch string
  | Extract string
  | BuildEnv string
  | OpenLog string
  | Invoke string

text \<open>
  Modelled from the spec, section 4.3 step 2: fetch from the URL template; on a network
  or transport failure retry once against the fallback template. A download without a
  fallback has nothing to retry against.
\<close>

definition fetch_artifact :: "exec_world \<Rightarrow> download \<Rightarrow> pipeline_event list \<times> string option" where
  "fetch_artifact w d =
    (let u = subst_version (url d) (version d)
     in case fetch w u of
          Some a \<Rightarrow> ([Fetch u], Some a)
        | None \<Rightarrow>
           (case fallback_url d of
              None \<Rightarrow> ([Fetch u], None)
            | Some f \<Rightarrow>
               (let fu = subst_version f (version d)
                in ([Fetch u, Fetch fu], fetch w fu))))"

text \<open>
  Modelled from the spec, section 4.3 steps 3 and 4: build the environment, open the log
  sink, invoke the build procedure; its failure is a \<open>BuildProcedureError\<close> (section 7).
\<close>

definition build_stage :: "exec_world \<Rightarrow> step \<Rightarrow> directories \<Rightarrow> pipeline_event list \<times> outcome" where
  "build_stage w s ds =
    ([BuildEnv (name s), OpenLog (d_log_dir ds), Invoke (name s)],
     if build_ok w (name s) then Done
     else Error \<lparr>be_step = name s, be_phase = Build_phase, be_cause = BuildProcedureError\<rparr>)"

text \<open>
  Modelled from the spec, section 4.3: derive and create the directories; with a download,
  fetch, compare digest and checksum, fail with \<open>ChecksumMismatchError\<close> on a mismatch and
  do not extract, otherwise extract into the source directory; then the build stage. A
  failure is wrapped into \<open>BuildError{stepName, phase, cause}\<close>.
\<close>

definition run_step :: "exec_world \<Rightarrow> graph \<Rightarrow> step \<Rightarrow> pipeline_event list \<times> outcome" where
  "run_step w g s =
    (let ds = derive_dirs (root_dir w) (g_platform g) (g_version g) (name s)
     in case download s of
          None \<Rightarrow> ([EnsureDirs ds] @ fst (build_stage w s ds), snd (build_stage w s ds))
        | Some d \<Rightarrow>
           (case snd (fetch_artifact w d) of
              None \<Rightarrow>
                ([EnsureDirs ds] @ fst (fetch_artifact w d),
                 Error \<lparr>be_step = name s, be_phase = Download_phase, be_cause = DownloadError\<rparr>)
            | Some a \<Rightarrow>
                if ct_equal (digest w a) (checksum d)
                then ([EnsureDirs ds] @ fst (fetch_artifact w d) @ [Extract (d_source ds)]
                        @ fst (build_stage w s ds),
                      snd (build_stage w s ds))
                else ([EnsureDirs ds] @ fst (fetch_artifact w d),
                      Error \<lparr>be_step = name s, be_phase = Verify_phase,
                             be_cause = ChecksumMismatchError\<rparr>)))"

text \<open>The checksum verification of a step fails: an artifact is fetched and its digest is not the checksum.\<close>

definition checksum_fails :: "exec_world \<Rightarrow> step \<Rightarrow> bool" where
  "checksum_fails w s =
    (case download s of
       None \<Rightarrow> False
     | Some d \<Rightarrow>
        (case snd (fetch_artifact w d) of
           None \<Rightarrow> False
         | Some a \<Rightarrow> digest w a \<noteq> checksum d))"

subsection \<open>The scheduler\<close>

text \<open>
  Modelled from the spec, section 4.2. Every step is \<open>Pending\<close> at first. A pending step
  whose dependencies have all succeeded becomes \<open>Ready\<close>; a pending step with a failed or
  skipped dependency becomes \<open>Skipped\<close>; a ready step is dispatched while fewer steps
  than the concurrency bound are running; a running step runs its pipeline and ends
  \<open>Succeeded\<close> or \<open>Failed\<close>. Which enabled transition happens next is not fixed: a run is
  any sequence of transitions, each enabled when it is taken, and it is finished when no
  step is pending, ready or running. The events of a pipeline enter the trace when the
  step ends.
\<close>

datatype step_state = Pending | Ready | Running | Succeeded | Failed | Skipped

datatype action = Make_ready string | Skip string | Dispatch string | Finish string

record sched =
  status :: "string \<Rightarrow> step_state"
  trace :: "pipeline_event list"
  errors :: "build_error list"

definition initial_sched :: sched where
  "initial_sched = \<lparr>status = (\<lambda>n. Pending), trace = [], errors = []\<rparr>"

definition deps :: "graph \<Rightarrow> string \<Rightarrow> string list" where
  "deps g n = (case map_of (g_steps g) n of None \<Rightarrow> [] | Some s \<Rightarrow> wait_on s)"

definition run_named :: "exec_world \<Rightarrow> graph \<Rightarrow> string \<Rightarrow> pipeline_event list \<times> outcome" where
  "run_named w g n =
    (case map_of (g_steps g) n of
       None \<Rightarrow> ([], Error \<lparr>be_step = n, be_phase = Build_phase, be_cause = BuildProcedureError\<rparr>)
     | Some s \<Rightarrow> run_step w g s)"

definition running_count :: "graph \<Rightarrow> sched \<Rightarrow> nat" where
  "running_count g sc = length (filter (\<lambda>n. status sc n = Running) (step_names g))"

definition finish_step :: "exec_world \<Rightarrow> graph \<Rightarrow> string \<Rightarrow> sched \<Rightarrow> sched" where
  "finish_step w g n sc =
    (case snd (run_named w g n) of
       Done \<Rightarrow> sc\<lparr>status := (status sc)(n := Succeeded),
                   trace := trace sc @ fst (run_named w g n)\<rparr>
     | Error e \<Rightarrow> sc\<lparr>status := (status sc)(n := Failed),
                      trace := trace sc @ fst (run_named w g n),
                      errors := errors sc @ [e]\<rparr>)"

fun apply_action :: "exec_world \<Rightarrow> graph \<Rightarrow> nat \<Rightarrow> sched \<Rightarrow> action \<Rightarrow> sched option" where
  "apply_action w g bound sc (Make_ready n) =
    (if n \<in> set (step_names g) \<and> status sc n = Pending
        \<and> list_all (\<lambda>d. status sc d = Succeeded) (deps g n)
     then Some (sc\<lparr>status := (status sc)(n := Ready)\<rparr>) else None)"
| "apply_action w g bound sc (Skip n) =
    (if n \<in> set (step_names g) \<and> status sc n = Pending
        \<and> list_ex (\<lambda>d. status sc d = Failed \<or> status sc d = Skipped) (deps g n)
     then Some (sc\<lparr>status := (status sc)(n := Skipped)\<rparr>) else None)"
| "apply_action w g bound sc (Dispatch n) =
    (if n \<in> set (step_names g) \<and> status sc n = Ready \<and> running_count g sc < bound
     then Some (sc\<lparr>status := (status sc)(n := Running)\<rparr>) else None)"
| "apply_action w g bound sc (Finish n) =
    (if n \<in> set (step_names g) \<and> status sc n = Running
     then Some (finish_step w g n sc) else None)"

fun run_actions :: "exec_world \<Rightarrow> graph \<Rightarrow> nat \<Rightarrow> sched \<Rightarrow> action list \<Rightarrow> sched option" where
  "run_actions w g bound sc [] = Some sc"
| "run_actions w g bound sc (a # as) =
    (case apply_action w g bound sc a of
       None \<Rightarrow> None
     | Some sc' \<Rightarrow> run_actions w g bound sc' as)"

definition finished :: "graph \<Rightarrow> sched \<Rightarrow> bool" where
  "finished g sc =
    list_all (\<lambda>n. status sc n \<noteq> Pending \<and> status sc n \<noteq> Ready \<and> status sc n \<noteq> Running)
      (step_names g)"

text \<open>The report of a run: the final state of every step, in registration order.\<close>

definition report :: "graph \<Rightarrow> sched \<Rightarrow> (string \<times> step_state) list" where
  "report g sc = map (\<lambda>n. (n, status sc n)) (step_names g)"

text \<open>
  The invariant of a run in which the checksum of \<open>openssl\<close> does not verify: \<open>openssl\<close> has
  not succeeded and has not been skipped, \<open>krb5\<close> and \<open>python\<close> are pending or skipped,
  and the build procedure of neither has been invoked.
\<close>

definition openssl_inv :: "sched \<Rightarrow> bool" where
  "openssl_inv sc =
    (status sc ''openssl'' \<noteq> Succeeded \<and> status sc ''openssl'' \<noteq> Skipped
     \<and> (status sc ''krb5'' = Pending \<or> status sc ''krb5'' = Skipped)
     \<and> (status sc ''python'' = Pending \<or> status sc ''python'' = Skipped)
     \<and> Invoke ''krb5'' \<notin> set (trace sc) \<and> Invoke ''python'' \<notin> set (trace sc))"

subsection \<open>A concrete run\<close>

text \<open>
  A world in which the artifact fetched for \<open>openssl\<close> is corrupted, the artifacts of the
  steps that do not depend on it are sound (an artifact stands for its own digest), and
  every build procedure succeeds.
\<close>

definition witness_urls :: "(string \<times> string) list" where
  "witness_urls =
    [(''https://github.com/openssl/openssl/releases/download/openssl-3.4.0/openssl-3.4.0.tar.gz'',
      ''corrupted''),
     (''https://github.com/besser82/libxcrypt/releases/download/v4.4.36/libxcrypt-4.4.36.tar.xz'',
      ''c040de2fd534f84082c9c42114ba11b4e1a67635''),
     (''http://tukaani.org/xz/xz-5.6.2.tar.gz'',
      ''0d6b10e4628fe08e19293c65e8dbcaade084a083''),
     (''https://sqlite.org/2024/sqlite-autoconf-3470200.tar.gz'',
      ''40f0296080bb63f0321a5652477a6ab87c757aa2''),
     (''https://sourceware.org/pub/bzip2/bzip2-1.0.8.tar.gz'',
      ''bf7badf7e248e0ecf465d33c2f5aeec774209227''),
     (''https://ftp.gnu.org/gnu/gdbm/gdbm-1.24.tar.gz'',
      ''7bd455f28c9e4afacc042e0c712aac1b2391fef2''),
     (''https://ftp.gnu.org/pub/gnu/ncurses/ncurses-6.4.tar.gz'',
      ''bb5eb3f34b3ecd5bac8d0b58164b847f135b3d62''),
     (''https://github.com/libffi/libffi/releases/download/v3.4.6/libffi-3.4.6.tar.gz'',
      ''19251dfee520dff42acefe36bfe76d7168071e01''),
     (''https://zlib.net/fossils/zlib-1.3.1.tar.gz'',
      ''f535367b1a11e2f9ac3bec723fb007fbc0d189e5''),
     (''https://sourceforge.net/projects/libuuid/files/libuuid-1.0.3.tar.gz'',
      ''46eaedb875ae6e63677b51ec583656199241d597''),
     (''https://ftp.gnu.org/gnu/readline/readline-8.2.13.tar.gz'',
      ''5ffb6a334c2422acbe8f4d2cb11e345265c8d930''),
     (''https://github.com/yaml/libyaml/releases/download/0.2.5/yaml-0.2.5.tar.gz'',
      ''f49b39644caccabef049e3ec8859e8fdf94b686e''),
     (''https://github.com/jedisct1/libsodium/releases/download/1.0.20-RELEASE/libsodium-1.0.20.tar.gz'',
      ''e37f50e66b4b90957cfef5792c6af6abf27ae9c6''),
     (''https://archive.hadrons.org/software/libmd/libmd-1.1.0.tar.xz'',
      ''72718d5ffad112b702ba84fd40900486f8179642''),
     (''https://libbsd.freedesktop.org/releases/libbsd-0.12.2.tar.xz'',
      ''c8f49920dec71e8e72f2b19f6c209b440a367d3a''),
     (''https://github.com/zeromq/libzmq/releases/download/v4.3.5/zeromq-4.3.5.tar.gz'',
      ''bdbf686c8a40ba638e21cf74e34dbb425e108500'')]"

definition witness_world :: exec_world where
  "witness_world =
    \<lparr>fetch = map_of witness_urls, digest = (\<lambda>a. a), build_ok = (\<lambda>n. True), root_dir = ''/work''\<rparr>"

definition run3 :: "string \<Rightarrow> action list" where
  "run3 n = [Make_ready n, Dispatch n, Finish n]"

definition witness_actions :: "action list" where
  "witness_actions =
    run3 ''openssl''
    @ [Skip ''openssl-fips-module'', Skip ''krb5'',
       Make_ready ''libxcrypt'', Make_ready ''XZ'', Dispatch ''libxcrypt'', Dispatch ''XZ'',
       Finish ''XZ'', Finish ''libxcrypt'']
    @ run3 ''SQLite'' @ run3 ''bzip2'' @ run3 ''gdbm'' @ run3 ''ncurses'' @ run3 ''libffi''
    @ run3 ''zlib'' @ run3 ''uuid'' @ run3 ''readline''
    @ [Skip ''tirpc'', Skip ''openldap'', Skip ''cyrus-sasl'']
    @ run3 ''libyaml'' @ run3 ''libsodium'' @ run3 ''libmd'' @ run3 ''libbsd'' @ run3 ''zeromq''
    @ [Skip ''python'', Skip ''relenv-finalize'']"

section \<open>Properties of buildenv\<close>

lemma buildenv_rest_not_linux:
  "sys_platform ctx \<noteq> ''linux'' \<Longrightarrow>
   buildenv_rest ctx tr p = (tr, Inl (RelenvException ''buildenv is only supported on Linux''))"
  by (simp add: buildenv_rest_def)

lemma buildenv_rest_returns:
  assumes "snd (buildenv_rest ctx tr p) = Inr e"
  shows "sys_platform ctx = ''linux''"
    and "\<exists>tc t. e = buildenv_mapping ctx tc t p"
proof -
  show lin: "sys_platform ctx = ''linux''"
    using assms by (auto simp: buildenv_rest_def split: if_splits)
  from assms lin show "\<exists>tc t. e = buildenv_mapping ctx tc t p"
    by (auto simp: buildenv_rest_def Let_def split: sum.splits)
qed

lemma buildenv_mapping_keys:
  "''MACOS_DEVELOPMENT_TARGET'' \<notin> fst ` set (buildenv_mapping ctx tc t p)"
  by (simp add: buildenv_mapping_def)

lemma buildenv_returns:
  assumes "snd (buildenv ctx rp) = Inr e"
  shows "\<exists>tr p. snd (buildenv_rest ctx tr p) = Inr e"
  using assms by (auto simp: buildenv_def split: if_splits option.splits)

text \<open>
  C9. Whatever the argument, \<open>buildenv\<close> raises \<open>RelenvException\<close> when \<open>sys.platform\<close> is
  not \<open>"linux"\<close>. Hence a call that returns a mapping ran on linux, where the darwin
  branch is not taken, and the mapping has no key \<open>MACOS_DEVELOPMENT_TARGET\<close>.
\<close>

theorem buildenv_linux_only:
  "(sys_platform ctx \<noteq> ''linux'' \<longrightarrow> (\<exists>msg. snd (buildenv ctx rp) = Inl (RelenvException msg)))
   \<and> (\<forall>e. snd (buildenv ctx rp) = Inr e \<longrightarrow>
         sys_platform ctx = ''linux'' \<and> ''MACOS_DEVELOPMENT_TARGET'' \<notin> fst ` set e)"
proof (intro conjI impI allI)
  assume "sys_platform ctx \<noteq> ''linux''"
  then show "\<exists>msg. snd (buildenv ctx rp) = Inl (RelenvException msg)"
    by (auto simp: buildenv_def buildenv_rest_not_linux split: option.splits)
next
  fix e assume r: "snd (buildenv ctx rp) = Inr e"
  then obtain tr p where b: "snd (buildenv_rest ctx tr p) = Inr e"
    using buildenv_returns by blast
  from buildenv_rest_returns(1)[OF b] show "sys_platform ctx = ''linux''" .
  from buildenv_rest_returns(2)[OF b] show "''MACOS_DEVELOPMENT_TARGET'' \<notin> fst ` set e"
    using buildenv_mapping_keys by blast
qed

theorem buildenv_linux_only_witness:
  "sys_platform darwin_ctx \<noteq> ''linux''
   \<and> (\<exists>msg. snd (buildenv darwin_ctx (Some ''/opt/other'')) = Inl (RelenvException msg))
   \<and> (\<exists>msg. snd (buildenv darwin_ctx None) = Inl (RelenvException msg))
   \<and> (\<exists>e. snd (buildenv linux_ctx (Some ''/opt/relenv'')) = Inr e
          \<and> ''MACOS_DEVELOPMENT_TARGET'' \<notin> fst ` set e)"
proof -
  have d: "sys_platform darwin_ctx \<noteq> ''linux''"
    by (simp add: darwin_ctx_def linux_ctx_def)
  have r: "\<exists>e. snd (buildenv linux_ctx (Some ''/opt/relenv'')) = Inr e"
    by (simp add: buildenv_def buildenv_rest_def linux_ctx_def Let_def)
  from d r buildenv_linux_only [of darwin_ctx "Some ''/opt/other''"]
    buildenv_linux_only [of darwin_ctx None]
    buildenv_linux_only [of linux_ctx "Some ''/opt/relenv''"]
  show ?thesis by blast
qed

text \<open>
  C10. Without a truthy \<open>relenv_path\<close>, outside a relenv environment, \<open>buildenv\<close> raises
  \<open>RelenvException\<close> having called nothing but \<open>is_relenv\<close>: neither \<open>work_dirs\<close> nor
  \<open>get_triplet\<close> has run and no mapping exists. With a truthy \<open>relenv_path\<close> the call
  to \<open>is_relenv\<close> does not happen, and the outcome does not depend on \<open>sys.RELENV\<close>.
\<close>

theorem buildenv_relenv_check:
  "(\<not> truthy rp \<and> \<not> is_relenv ctx \<longrightarrow>
      buildenv ctx rp = ([Call_is_relenv], Inl (RelenvException ''Not in a relenv environment'')))
   \<and> (truthy rp \<longrightarrow>
        Call_is_relenv \<notin> set (fst (buildenv ctx rp))
        \<and> buildenv (ctx\<lparr>sys_RELENV := r\<rparr>) rp = buildenv ctx rp)"
proof (intro conjI impI)
  assume "\<not> truthy rp \<and> \<not> is_relenv ctx"
  then show "buildenv ctx rp = ([Call_is_relenv], Inl (RelenvException ''Not in a relenv environment''))"
    by (simp add: buildenv_def)
next
  assume t: "truthy rp"
  then obtain p where p: "rp = Some p" "p \<noteq> []" by (cases rp) auto
  show "Call_is_relenv \<notin> set (fst (buildenv ctx rp))"
    using p by (auto simp: buildenv_def buildenv_rest_def Let_def split: sum.splits)
  show "buildenv (ctx\<lparr>sys_RELENV := r\<rparr>) rp = buildenv ctx rp"
    using p by (simp add: buildenv_def buildenv_rest_def buildenv_mapping_def Let_def
        split: sum.splits)
qed

theorem buildenv_relenv_check_witness:
  "\<not> truthy (Some []) \<and> \<not> is_relenv linux_ctx \<and> truthy (Some ''/opt/relenv'')
   \<and> buildenv linux_ctx (Some []) = ([Call_is_relenv], Inl (RelenvException ''Not in a relenv environment''))
   \<and> Call_is_relenv \<notin> set (fst (buildenv linux_ctx (Some ''/opt/relenv'')))
   \<and> buildenv (linux_ctx\<lparr>sys_RELENV := Some ''/srv''\<rparr>) (Some ''/opt/relenv'')
       = buildenv linux_ctx (Some ''/opt/relenv'')"
proof -
  have a: "\<not> truthy (Some [])" by simp
  have b: "\<not> is_relenv linux_ctx" by (simp add: is_relenv_def linux_ctx_def)
  have c: "truthy (Some ''/opt/relenv'')" by simp
  from a b c buildenv_relenv_check [of "Some []" linux_ctx]
    buildenv_relenv_check [of "Some ''/opt/relenv''" linux_ctx "Some ''/srv''"]
  show ?thesis by blast
qed

section \<open>Properties of populate_env and the build procedures\<close>

lemma map_of_env_set: "map_of (env_set e k v) = (map_of e)(k \<mapsto> v)"
  by (induction e k v rule: env_set.induct) auto

lemma emit_emit: "emit s (emit t r) = emit (s @ t) r"
  by (cases r) simp_all

lemma format_scan_brace_free:
  "brace_free s \<Longrightarrow> format_scan p Lit (s @ t) = emit s (format_scan p Lit t)"
proof (induction s)
  case Nil
  show ?case by (cases "format_scan p Lit t") simp_all
next
  case (Cons c s)
  then have "c \<noteq> CHR ''{''" "c \<noteq> CHR ''}''" "brace_free s"
    by (auto simp: brace_free_def)
  with Cons.IH show ?case by (simp add: emit_emit)
qed

lemma keeps_to_assign: "k \<in> K \<Longrightarrow> keeps_to K (assign k rhs)"
  by (auto simp: keeps_to_def assign_def map_of_env_set split: sum.splits)

lemma keeps_to_call_runcmd: "keeps_to K (call_runcmd w mk)"
  by (auto simp: keeps_to_def call_runcmd_def split: sum.splits)

lemma keeps_to_effect_stmt: "keeps_to K (effect_stmt r)"
  by (auto simp: keeps_to_def effect_stmt_def split: sum.splits)

lemma keeps_to_nil: "keeps_to K (run_stmts [])"
  by (simp add: keeps_to_def)

lemma keeps_to_cons:
  assumes f: "keeps_to K f" and r: "keeps_to K (run_stmts fs)"
  shows "keeps_to K (run_stmts (f # fs))"
  unfolding keeps_to_def
proof (intro allI impI)
  fix s k assume k: "k \<notin> K"
  obtain s' r' where fs: "f s = (s', r')" by (cases "f s")
  from f k fs have 1: "map_of (st_env s') k = map_of (st_env s) k"
    by (auto simp: keeps_to_def dest: spec[where x=s])
  from r k have 2: "map_of (st_env (fst (run_stmts fs s'))) k = map_of (st_env s') k"
    by (simp add: keeps_to_def)
  show "map_of (st_env (fst (run_stmts (f # fs) s))) k = map_of (st_env s) k"
    using fs 1 2 by (cases r') simp_all
qed

lemma keeps_to_let_val: "(\<And>v. keeps_to K (k v)) \<Longrightarrow> keeps_to K (let_val rhs k)"
  by (auto simp: keeps_to_def let_val_def split: sum.splits)

lemma keeps_to_when_stmt: "keeps_to K (run_stmts fs) \<Longrightarrow> keeps_to K (when_stmt b fs)"
  by (auto simp: keeps_to_def when_stmt_def)

lemmas keeps_to_intros =
  keeps_to_nil keeps_to_cons keeps_to_assign keeps_to_call_runcmd keeps_to_effect_stmt
  keeps_to_let_val keeps_to_when_stmt

lemma keeps_toD:
  "keeps_to K f \<Longrightarrow> k \<notin> K \<Longrightarrow> map_of (st_env (fst (f \<lparr>st_env = e, st_effects = x\<rparr>))) k = map_of e k"
  by (simp add: keeps_to_def)

lemma populate_env_keeps:
  assumes "k \<notin> {''CC'', ''CXX'', ''PATH'', ''LDFLAGS'', ''CFLAGS'', ''CPPFLAGS'', ''CXXFLAGS'',
                ''LD_LIBRARY_PATH'', ''PKG_CONFIG_PATH''}"
  shows "map_of (fst (populate_env env dirs)) k = map_of env k"
proof -
  let ?K = "{''CC'', ''CXX'', ''PATH'', ''LDFLAGS'', ''CFLAGS'', ''CPPFLAGS'', ''CXXFLAGS'',
                ''LD_LIBRARY_PATH'', ''PKG_CONFIG_PATH''}"
  show ?thesis
    unfolding populate_env_def
    apply (simp only: split_beta fst_conv)
    apply (rule keeps_toD[OF _ assms])
    apply (intro keeps_to_intros; simp)
    done
qed


lemma run_stmts_assign:
  "run_stmts (assign k rhs # fs) s =
    (case rhs (st_env s) of
       Inl e \<Rightarrow> (s, Some e)
     | Inr v \<Rightarrow> run_stmts fs (s\<lparr>st_env := env_set (st_env s) k v\<rparr>))"
  by (simp add: assign_def split: sum.splits)

lemma run_stmts_tail_env:
  "keeps_to {} (run_stmts fs) \<Longrightarrow> map_of (st_env (fst (run_stmts fs s))) = map_of (st_env s)"
  by (rule ext) (simp add: keeps_to_def)

lemmas tail_simps =
  run_stmts_assign run_stmts_tail_env keeps_to_cons keeps_to_nil keeps_to_call_runcmd
  keeps_to_effect_stmt keeps_to_when_stmt keeps_to_let_val

lemma build_readline_keeps:
  assumes "k \<noteq> ''LDFLAGS''"
  shows "map_of (st_env (fst (build_readline w env dirs logfp))) k = map_of env k"
proof -
  from assms have k: "k \<notin> {''LDFLAGS''}" by simp
  show ?thesis
    unfolding build_readline_def
    by (rule keeps_toD[OF _ k]) (intro keeps_to_intros; simp)
qed

lemma build_readline_value:
  "map_of env ''LDFLAGS'' = Some l \<Longrightarrow>
   map_of (st_env (fst (build_readline w env dirs logfp))) ''LDFLAGS'' = Some (l @ '' -ltinfow'')"
  unfolding build_readline_def
  by (simp add: tail_simps env_get_def map_of_env_set del: run_stmts.simps)

lemma build_zlib_keeps:
  assumes "k \<noteq> ''CFLAGS''"
  shows "map_of (st_env (fst (build_zlib w env dirs logfp))) k = map_of env k"
proof -
  from assms have k: "k \<notin> {''CFLAGS''}" by simp
  show ?thesis
    unfolding build_zlib_def
    by (rule keeps_toD[OF _ k]) (intro keeps_to_intros; simp)
qed

lemma build_zlib_value:
  "map_of env ''CFLAGS'' = Some c \<Longrightarrow>
   map_of (st_env (fst (build_zlib w env dirs logfp))) ''CFLAGS'' = Some (''-fPIC '' @ c)"
  unfolding build_zlib_def
  by (simp add: tail_simps env_get_def map_of_env_set del: run_stmts.simps)

lemma build_zeromq_keeps:
  assumes "k \<notin> {''CFLAGS'', ''LDFLAGS'', ''CPPFLAGS'', ''PKG_CONFIG_PATH'', ''LD_LIBRARY_PATH''}"
  shows "map_of (st_env (fst (build_zeromq w env dirs logfp))) k = map_of env k"
proof -
  from assms have k: "k \<notin> {''CFLAGS'', ''LDFLAGS'', ''CPPFLAGS'', ''PKG_CONFIG_PATH'', ''LD_LIBRARY_PATH''}" by simp
  show ?thesis
    unfolding build_zeromq_def
    by (rule keeps_toD[OF _ k]) (intro keeps_to_intros; simp)
qed

lemma build_zeromq_value:
  "map_of env ''LDFLAGS'' = Some l \<Longrightarrow> map_of env ''CPPFLAGS'' = Some c \<Longrightarrow>
   map_of (st_env (fst (build_zeromq w env dirs logfp))) =
     (map_of env)
     (''CFLAGS'' \<mapsto> ''-fPIC '' @ env_get_default env ''CFLAGS'' [],
      ''LDFLAGS'' \<mapsto> l @ '' -lbsd -lsodium'',
      ''CPPFLAGS'' \<mapsto> c @ '' -I'' @ prefix dirs @ ''/include'',
      ''PKG_CONFIG_PATH'' \<mapsto> prefix dirs @ ''/lib/pkgconfig'',
      ''LD_LIBRARY_PATH'' \<mapsto> prefix dirs @ ''/lib:'' @ env_get_default env ''LD_LIBRARY_PATH'' [])"
  unfolding build_zeromq_def
  by (simp add: tail_simps env_get_def env_get_default_def map_of_env_set del: run_stmts.simps)

lemma build_python_keeps:
  assumes "k \<notin> {''LDFLAGS'', ''OPENSSL_CFLAGS'', ''OPENSSL_LDFLAGS'', ''CFLAGS''}"
  shows "map_of (st_env (fst (build_python w env dirs logfp))) k = map_of env k"
proof -
  from assms have k: "k \<notin> {''LDFLAGS'', ''OPENSSL_CFLAGS'', ''OPENSSL_LDFLAGS'', ''CFLAGS''}" by simp
  show ?thesis
    unfolding build_python_def
    by (rule keeps_toD[OF _ k]) (intro keeps_to_intros; simp)
qed

lemma populate_env_values:
  assumes "map_of env ''RELENV_HOST'' = Some host" "map_of env ''PATH'' = Some path"
    "brace_free (toolchain dirs)" "brace_free host"
  shows "snd (populate_env env dirs) = None"
    and "map_of (fst (populate_env env dirs)) =
      (map_of env)
      (''CC'' \<mapsto> toolchain dirs @ ''/bin/'' @ host @ ''-gcc -no-pie'',
       ''CXX'' \<mapsto> toolchain dirs @ ''/bin/'' @ host @ ''-g++ -no-pie'',
       ''PATH'' \<mapsto> toolchain dirs @ ''/bin/:'' @ prefix dirs @ ''/bin/:'' @ path,
       ''LDFLAGS'' \<mapsto> ''-Wl,--build-id=sha1 -Wl,--rpath='' @ prefix dirs @ ''/lib -L''
          @ prefix dirs @ ''/lib -L'' @ toolchain dirs @ ''/'' @ host
          @ ''/sysroot/lib -static-libstdc++'',
       ''CFLAGS'' \<mapsto> ''-g -I'' @ prefix dirs @ ''/include -I'' @ prefix dirs
          @ ''/include/readline -I'' @ prefix dirs @ ''/include/ncursesw -I''
          @ toolchain dirs @ ''/'' @ host @ ''/sysroot/usr/include'',
       ''CPPFLAGS'' \<mapsto> ''-I'' @ prefix dirs @ ''/include -I'' @ prefix dirs
          @ ''/include/readline -I'' @ prefix dirs @ ''/include/ncursesw -I''
          @ toolchain dirs @ ''/'' @ host @ ''/sysroot/usr/include'',
       ''CXXFLAGS'' \<mapsto> ''-I'' @ prefix dirs @ ''/include -I'' @ prefix dirs
          @ ''/include/readline -I'' @ prefix dirs @ ''/include/ncursesw -I''
          @ toolchain dirs @ ''/'' @ host @ ''/sysroot/usr/include'',
       ''LD_LIBRARY_PATH'' \<mapsto> ''{prefix}/lib'',
       ''PKG_CONFIG_PATH'' \<mapsto> prefix dirs @ ''/lib/pkgconfig'')"
  using assms
  by (simp_all add: populate_env_def assign_def let_val_def env_get_def map_of_env_set
      py_format_prefix_def format_scan_brace_free emit_emit resolve_field_def field_special_def)


text \<open>
  C6, as the code has it. \<open>populate_env\<close> returns nothing and assigns into the
  dictionary it is given. When that dictionary has \<open>RELENV_HOST\<close> and \<open>PATH\<close>, and
  neither the toolchain path nor the host contains a brace, no exception is raised and the
  caller's dictionary afterwards is the old one with \<open>CC\<close>, \<open>CXX\<close>, \<open>PATH\<close>,
  \<open>LDFLAGS\<close>, \<open>CFLAGS\<close>, \<open>CPPFLAGS\<close>, \<open>CXXFLAGS\<close>, \<open>LD_LIBRARY_PATH\<close> and
  \<open>PKG_CONFIG_PATH\<close> set to values computed from the old dictionary and \<open>dirs\<close>. In
  every case, also when an exception is raised part of the way, all other keys are left
  as they were.
\<close>

theorem populate_env_assigns_in_place:
  "(map_of env ''RELENV_HOST'' = Some host \<and> map_of env ''PATH'' = Some path
      \<and> brace_free (toolchain dirs) \<and> brace_free host \<longrightarrow>
      snd (populate_env env dirs) = None
      \<and> map_of (fst (populate_env env dirs)) =
        (map_of env)
        (''CC'' \<mapsto> toolchain dirs @ ''/bin/'' @ host @ ''-gcc -no-pie'',
         ''CXX'' \<mapsto> toolchain dirs @ ''/bin/'' @ host @ ''-g++ -no-pie'',
         ''PATH'' \<mapsto> toolchain dirs @ ''/bin/:'' @ prefix dirs @ ''/bin/:'' @ path,
         ''LDFLAGS'' \<mapsto> ''-Wl,--build-id=sha1 -Wl,--rpath='' @ prefix dirs @ ''/lib -L''
            @ prefix dirs @ ''/lib -L'' @ toolchain dirs @ ''/'' @ host
            @ ''/sysroot/lib -static-libstdc++'',
         ''CFLAGS'' \<mapsto> ''-g -I'' @ prefix dirs @ ''/include -I'' @ prefix dirs
            @ ''/include/readline -I'' @ prefix dirs @ ''/include/ncursesw -I''
            @ toolchain dirs @ ''/'' @ host @ ''/sysroot/usr/include'',
         ''CPPFLAGS'' \<mapsto> ''-I'' @ prefix dirs @ ''/include -I'' @ prefix dirs
            @ ''/include/readline -I'' @ prefix dirs @ ''/include/ncursesw -I''
            @ toolchain dirs @ ''/'' @ host @ ''/sysroot/usr/include'',
         ''CXXFLAGS'' \<mapsto> ''-I'' @ prefix dirs @ ''/include -I'' @ prefix dirs
            @ ''/include/readline -I'' @ prefix dirs @ ''/include/ncursesw -I''
            @ toolchain dirs @ ''/'' @ host @ ''/sysroot/usr/include'',
         ''LD_LIBRARY_PATH'' \<mapsto> ''{prefix}/lib'',
         ''PKG_CONFIG_PATH'' \<mapsto> prefix dirs @ ''/lib/pkgconfig''))
   \<and> (k \<notin> {''CC'', ''CXX'', ''PATH'', ''LDFLAGS'', ''CFLAGS'', ''CPPFLAGS'', ''CXXFLAGS'',
              ''LD_LIBRARY_PATH'', ''PKG_CONFIG_PATH''} \<longrightarrow>
        map_of (fst (populate_env env dirs)) k = map_of env k)"
  using populate_env_values[of env host path dirs] populate_env_keeps[of k env dirs]
  by blast

theorem populate_env_assigns_in_place_witness:
  "map_of env0 ''RELENV_HOST'' = Some ''x86_64-linux-gnu'' \<and> map_of env0 ''PATH'' = Some ''/usr/bin''
   \<and> brace_free (toolchain dirs0) \<and> brace_free ''x86_64-linux-gnu''
   \<and> snd (populate_env env0 dirs0) = None
   \<and> map_of (fst (populate_env env0 dirs0)) ''LDFLAGS''
       = Some ''-Wl,--build-id=sha1 -Wl,--rpath=/b/lib -L/b/lib -L/t/x86_64-linux-gnu/sysroot/lib -static-libstdc++''
   \<and> map_of (fst (populate_env env0 dirs0)) ''RELENV_BUILD'' = Some ''x86_64-linux-gnu''"
proof -
  have h: "map_of env0 ''RELENV_HOST'' = Some ''x86_64-linux-gnu''" "map_of env0 ''PATH'' = Some ''/usr/bin''"
    "brace_free (toolchain dirs0)" "brace_free ''x86_64-linux-gnu''"
    by (simp_all add: env0_def dirs0_def brace_free_def)
  have k: "''RELENV_BUILD'' \<notin> {''CC'', ''CXX'', ''PATH'', ''LDFLAGS'', ''CFLAGS'', ''CPPFLAGS'',
      ''CXXFLAGS'', ''LD_LIBRARY_PATH'', ''PKG_CONFIG_PATH''}"
    by simp
  have b: "map_of env0 ''RELENV_BUILD'' = Some ''x86_64-linux-gnu''"
    by (simp add: env0_def)
  from populate_env_assigns_in_place
    [of env0 "''x86_64-linux-gnu''" "''/usr/bin''" dirs0 "''RELENV_BUILD''"] h k
  have "snd (populate_env env0 dirs0) = None"
    and m: "map_of (fst (populate_env env0 dirs0)) =
        (map_of env0)
        (''CC'' \<mapsto> toolchain dirs0 @ ''/bin/'' @ ''x86_64-linux-gnu'' @ ''-gcc -no-pie'',
         ''CXX'' \<mapsto> toolchain dirs0 @ ''/bin/'' @ ''x86_64-linux-gnu'' @ ''-g++ -no-pie'',
         ''PATH'' \<mapsto> toolchain dirs0 @ ''/bin/:'' @ prefix dirs0 @ ''/bin/:'' @ ''/usr/bin'',
         ''LDFLAGS'' \<mapsto> ''-Wl,--build-id=sha1 -Wl,--rpath='' @ prefix dirs0 @ ''/lib -L''
            @ prefix dirs0 @ ''/lib -L'' @ toolchain dirs0 @ ''/'' @ ''x86_64-linux-gnu''
            @ ''/sysroot/lib -static-libstdc++'',
         ''CFLAGS'' \<mapsto> ''-g -I'' @ prefix dirs0 @ ''/include -I'' @ prefix dirs0
            @ ''/include/readline -I'' @ prefix dirs0 @ ''/include/ncursesw -I''
            @ toolchain dirs0 @ ''/'' @ ''x86_64-linux-gnu'' @ ''/sysroot/usr/include'',
         ''CPPFLAGS'' \<mapsto> ''-I'' @ prefix dirs0 @ ''/include -I'' @ prefix dirs0
            @ ''/include/readline -I'' @ prefix dirs0 @ ''/include/ncursesw -I''
            @ toolchain dirs0 @ ''/'' @ ''x86_64-linux-gnu'' @ ''/sysroot/usr/include'',
         ''CXXFLAGS'' \<mapsto> ''-I'' @ prefix dirs0 @ ''/include -I'' @ prefix dirs0
            @ ''/include/readline -I'' @ prefix dirs0 @ ''/include/ncursesw -I''
            @ toolchain dirs0 @ ''/'' @ ''x86_64-linux-gnu'' @ ''/sysroot/usr/include'',
         ''LD_LIBRARY_PATH'' \<mapsto> ''{prefix}/lib'',
         ''PKG_CONFIG_PATH'' \<mapsto> prefix dirs0 @ ''/lib/pkgconfig'')"
    and "map_of (fst (populate_env env0 dirs0)) ''RELENV_BUILD'' = map_of env0 ''RELENV_BUILD''"
    by blast+
  then show ?thesis using h b by (simp add: dirs0_def)
qed

text \<open>
  The claim of C6 that the caller's arguments are not mutated fails: before the call the
  dictionary has no key \<open>CC\<close>, after it the same dictionary has one.
\<close>

theorem populate_env_mutates_argument:
  "map_of env0 ''CC'' = None
   \<and> snd (populate_env env0 dirs0) = None
   \<and> map_of (fst (populate_env env0 dirs0)) ''CC'' = Some ''/t/bin/x86_64-linux-gnu-gcc -no-pie''"
  by (simp add: populate_env_def env0_def dirs0_def assign_def let_val_def env_get_def
      py_format_prefix_def resolve_field_def field_special_def)

text \<open>
  C7, as the code has it. A build procedure assigns into the dictionary it is given, and
  the caller sees the assignments. \<open>build_readline\<close> replaces \<open>LDFLAGS\<close> by its old value
  followed by \<open>" -ltinfow"\<close>; \<open>build_zlib\<close> replaces \<open>CFLAGS\<close> by \<open>"-fPIC "\<close> followed by
  its old value; \<open>build_zeromq\<close> assigns \<open>CFLAGS\<close>, \<open>LDFLAGS\<close>, \<open>CPPFLAGS\<close>,
  \<open>PKG_CONFIG_PATH\<close> and \<open>LD_LIBRARY_PATH\<close>. Each leaves every other key as it was,
  whatever the commands do and whether or not an exception is raised.
\<close>

theorem build_procedures_assign_env:
  "(k \<noteq> ''LDFLAGS'' \<longrightarrow>
      map_of (st_env (fst (build_readline w env dirs logfp))) k = map_of env k)
   \<and> (map_of env ''LDFLAGS'' = Some l \<longrightarrow>
      map_of (st_env (fst (build_readline w env dirs logfp))) ''LDFLAGS'' = Some (l @ '' -ltinfow''))
   \<and> (k \<noteq> ''CFLAGS'' \<longrightarrow>
      map_of (st_env (fst (build_zlib w env dirs logfp))) k = map_of env k)
   \<and> (map_of env ''CFLAGS'' = Some c \<longrightarrow>
      map_of (st_env (fst (build_zlib w env dirs logfp))) ''CFLAGS'' = Some (''-fPIC '' @ c))
   \<and> (k \<notin> {''CFLAGS'', ''LDFLAGS'', ''CPPFLAGS'', ''PKG_CONFIG_PATH'', ''LD_LIBRARY_PATH''} \<longrightarrow>
      map_of (st_env (fst (build_zeromq w env dirs logfp))) k = map_of env k)
   \<and> (map_of env ''LDFLAGS'' = Some l \<and> map_of env ''CPPFLAGS'' = Some cpp \<longrightarrow>
      map_of (st_env (fst (build_zeromq w env dirs logfp))) =
        (map_of env)
        (''CFLAGS'' \<mapsto> ''-fPIC '' @ env_get_default env ''CFLAGS'' [],
         ''LDFLAGS'' \<mapsto> l @ '' -lbsd -lsodium'',
         ''CPPFLAGS'' \<mapsto> cpp @ '' -I'' @ prefix dirs @ ''/include'',
         ''PKG_CONFIG_PATH'' \<mapsto> prefix dirs @ ''/lib/pkgconfig'',
         ''LD_LIBRARY_PATH'' \<mapsto> prefix dirs @ ''/lib:'' @ env_get_default env ''LD_LIBRARY_PATH'' []))"
  using build_readline_keeps[of k w env dirs logfp] build_readline_value[of env l w dirs logfp]
    build_zlib_keeps[of k w env dirs logfp] build_zlib_value[of env c w dirs logfp]
    build_zeromq_keeps[of k w env dirs logfp] build_zeromq_value[of env l cpp w dirs logfp]
  by blast

theorem build_procedures_assign_env_witness:
  "map_of env0 ''LDFLAGS'' = Some ''-L/b/lib'' \<and> map_of env0 ''CFLAGS'' = Some ''-g''
   \<and> map_of env0 ''CPPFLAGS'' = Some ''-I/b/include''
   \<and> map_of (st_env (fst (build_readline world0 env0 dirs0 7))) ''PATH'' = Some ''/usr/bin''
   \<and> map_of (st_env (fst (build_readline world0 env0 dirs0 7))) ''LDFLAGS'' = Some ''-L/b/lib -ltinfow''
   \<and> map_of (st_env (fst (build_zlib world0 env0 dirs0 7))) ''PATH'' = Some ''/usr/bin''
   \<and> map_of (st_env (fst (build_zlib world0 env0 dirs0 7))) ''CFLAGS'' = Some ''-fPIC -g''
   \<and> map_of (st_env (fst (build_zeromq world0 env0 dirs0 7))) ''PATH'' = Some ''/usr/bin''
   \<and> map_of (st_env (fst (build_zeromq world0 env0 dirs0 7))) ''LD_LIBRARY_PATH'' = Some ''/b/lib:''"
proof -
  have h: "map_of env0 ''LDFLAGS'' = Some ''-L/b/lib''" "map_of env0 ''CFLAGS'' = Some ''-g''"
    "map_of env0 ''CPPFLAGS'' = Some ''-I/b/include''" "map_of env0 ''PATH'' = Some ''/usr/bin''"
    "map_of env0 ''LD_LIBRARY_PATH'' = None"
    by (simp_all add: env0_def)
  have k: "''PATH'' \<noteq> ''LDFLAGS''" "''PATH'' \<noteq> ''CFLAGS''"
    "''PATH'' \<notin> {''CFLAGS'', ''LDFLAGS'', ''CPPFLAGS'', ''PKG_CONFIG_PATH'', ''LD_LIBRARY_PATH''}"
    by simp_all
  from build_procedures_assign_env
    [of "''PATH''" world0 env0 dirs0 7 "''-L/b/lib''" "''-g''" "''-I/b/include''"] h(1-3) k
  have "map_of (st_env (fst (build_readline world0 env0 dirs0 7))) ''PATH'' = map_of env0 ''PATH''"
    and "map_of (st_env (fst (build_readline world0 env0 dirs0 7))) ''LDFLAGS'' = Some (''-L/b/lib'' @ '' -ltinfow'')"
    and "map_of (st_env (fst (build_zlib world0 env0 dirs0 7))) ''PATH'' = map_of env0 ''PATH''"
    and "map_of (st_env (fst (build_zlib world0 env0 dirs0 7))) ''CFLAGS'' = Some (''-fPIC '' @ ''-g'')"
    and "map_of (st_env (fst (build_zeromq world0 env0 dirs0 7))) ''PATH'' = map_of env0 ''PATH''"
    and "map_of (st_env (fst (build_zeromq world0 env0 dirs0 7))) =
        (map_of env0)
        (''CFLAGS'' \<mapsto> ''-fPIC '' @ env_get_default env0 ''CFLAGS'' [],
         ''LDFLAGS'' \<mapsto> ''-L/b/lib'' @ '' -lbsd -lsodium'',
         ''CPPFLAGS'' \<mapsto> ''-I/b/include'' @ '' -I'' @ prefix dirs0 @ ''/include'',
         ''PKG_CONFIG_PATH'' \<mapsto> prefix dirs0 @ ''/lib/pkgconfig'',
         ''LD_LIBRARY_PATH'' \<mapsto> prefix dirs0 @ ''/lib:'' @ env_get_default env0 ''LD_LIBRARY_PATH'' [])"
    by blast+
  then show ?thesis using h by (simp add: dirs0_def env_get_default_def)
qed

text \<open>
  The claim of C7 that the environment passed in is unchanged after the call fails for
  \<open>build_readline\<close>: \<open>LDFLAGS\<close> has a different value afterwards.
\<close>

theorem build_readline_mutates_env:
  "map_of env0 ''LDFLAGS'' = Some ''-L/b/lib''
   \<and> map_of (st_env (fst (build_readline world0 env0 dirs0 7))) ''LDFLAGS''
       = Some ''-L/b/lib -ltinfow''"
  by (simp add: build_readline_def env0_def dirs0_def world0_def assign_def call_runcmd_def
      logged_def env_get_def)

text \<open>
  C8 at a concrete call of \<open>build_python\<close> with log handle 7, every command succeeding:
  the seven \<open>runcmd\<close> calls in order, each with the \<open>stdout\<close> and \<open>stderr\<close> it is given.
  The three \<open>sed\<close> calls pass neither, so their streams are not directed to the handle.
\<close>

theorem build_python_runcmd_streams:
  "map (\<lambda>c. (hd (argv c), kw_stdout c, kw_stderr c))
      (runcmd_calls (fst (build_python world0 env0 dirs0 7)))
   = [(''sed'', None, None), (''sed'', None, None), (''patch'', Some 7, Some 7),
      (''./configure'', Some 7, Some 7), (''sed'', None, None),
      (''make'', Some 7, Some 7), (''make'', Some 7, Some 7)]"
  by (simp add: build_python_def env0_def dirs0_def world0_def assign_def call_runcmd_def
      logged_def plain_def env_get_def when_stmt_def let_val_def effect_stmt_def runcmd_calls_def)

section \<open>Properties of the build graph, the registry and copy\<close>

lemma nth_fresh_zip:
  "length ns = length ss \<Longrightarrow>
   map (\<lambda>(n, a). (n, (h @ ss) ! a)) (zip ns [length h ..< length h + length ss]) = zip ns ss"
proof (induction ss arbitrary: ns h rule: rev_induct)
  case Nil
  then show ?case by simp
next
  case (snoc x xs)
  then obtain ms m where ns: "ns = ms @ [m]" "length ms = length xs"
    by (cases ns rule: rev_cases) auto
  have "map (\<lambda>(n, a). (n, (h @ xs @ [x]) ! a)) (zip ms [length h ..< length h + length xs])
      = map (\<lambda>(n, a). (n, (h @ xs) ! a)) (zip ms [length h ..< length h + length xs])"
    by (rule map_cong[OF refl]) (auto simp: nth_append dest!: set_zip_rightD)
  with snoc.IH[OF ns(2), of h] ns show ?case
    by (simp add: nth_append)
qed

lemma steps_of_old:
  assumes "\<forall>a \<in> snd ` set (recipes (builder_heap st ! b)). a < length (step_heap st)"
  shows "map (\<lambda>(n, a). (n, (step_heap st @ xs) ! a)) (recipes (builder_heap st ! b))
     = map (\<lambda>(n, a). (n, step_heap st ! a)) (recipes (builder_heap st ! b))"
  using assms by (intro map_cong[OF refl]) (auto simp: nth_append)

lemma wf_stateD:
  "wf_state st \<Longrightarrow> b < length (builder_heap st) \<Longrightarrow>
   \<forall>a \<in> snd ` set (recipes (builder_heap st ! b)). a < length (step_heap st)"
  unfolding wf_state_def by (metis nth_mem)

lemma copy_address: "snd (copy st b ov) = length (builder_heap st)"
  by (simp add: copy_def Let_def)

lemma copy_step_heap_old:
  "a < length (step_heap st) \<Longrightarrow> step_heap (fst (copy st b ov)) ! a = step_heap st ! a"
  by (simp add: copy_def Let_def nth_append)

lemma copy_builder_heap_old:
  "x < length (builder_heap st) \<Longrightarrow> builder_heap (fst (copy st b ov)) ! x = builder_heap st ! x"
  by (simp add: copy_def Let_def nth_append)

lemma copy_builds: "builds (fst (copy st b ov)) = builds st"
  by (simp add: copy_def Let_def)

lemma copy_lengths:
  "length (builder_heap (fst (copy st b ov))) = Suc (length (builder_heap st))"
  "length (step_heap (fst (copy st b ov)))
     = length (step_heap st) + length (recipes (builder_heap st ! b))"
  by (simp_all add: copy_def Let_def)

lemma copy_steps_of_old:
  assumes "wf_state st" "x < length (builder_heap st)"
  shows "steps_of (fst (copy st b ov)) x = steps_of st x"
  using steps_of_old[OF wf_stateD[OF assms]] assms(2)
  by (simp add: steps_of_def copy_def Let_def nth_append)

lemma copy_graph_of_old:
  assumes "wf_state st" "x < length (builder_heap st)"
  shows "graph_of (fst (copy st b ov)) x = graph_of st x"
  using copy_steps_of_old[OF assms] copy_builder_heap_old[OF assms(2)]
  by (simp add: graph_of_def)

lemma copy_new_builder:
  "builder_heap (fst (copy st b ov)) ! length (builder_heap st) =
     (builder_heap st ! b)
       \<lparr>b_version := (case ov_version ov of None \<Rightarrow> b_version (builder_heap st ! b) | Some v \<Rightarrow> v),
        recipes := zip (map fst (recipes (builder_heap st ! b)))
           [length (step_heap st) ..< length (step_heap st) + length (recipes (builder_heap st ! b))]\<rparr>"
  by (simp add: copy_def Let_def)

lemma zip_fst_map:
  "zip (map fst r) (map (\<lambda>(n, a). g (h a)) r) = map (\<lambda>(n, s). (n, g s)) (map (\<lambda>(n, a). (n, h a)) r)"
  by (induction r) auto

lemma copy_steps_of_new:
  "steps_of (fst (copy st b ov)) (length (builder_heap st))
     = map (\<lambda>(n, s). (n, override_step (ov_steps ov) s)) (steps_of st b)"
proof -
  let ?r = "recipes (builder_heap st ! b)"
  let ?objs = "map (\<lambda>(n, a). override_step (ov_steps ov) (step_heap st ! a)) ?r"
  have "map (\<lambda>(n, a). (n, (step_heap st @ ?objs) ! a))
          (zip (map fst ?r) [length (step_heap st) ..< length (step_heap st) + length ?objs])
        = zip (map fst ?r) ?objs"
    by (rule nth_fresh_zip) simp
  moreover have "zip (map fst ?r) ?objs
        = map (\<lambda>(n, s). (n, override_step (ov_steps ov) s)) (map (\<lambda>(n, a). (n, step_heap st ! a)) ?r)"
    by (rule zip_fst_map)
  ultimately show ?thesis
    by (simp add: steps_of_def copy_def Let_def)
qed

lemma copy_wf:
  assumes "wf_state st" "b < length (builder_heap st)"
  shows "wf_state (fst (copy st b ov))"
proof -
  let ?st = "fst (copy st b ov)"
  let ?n = "length (recipes (builder_heap st ! b))"
  have len: "length (step_heap ?st) = length (step_heap st) + ?n"
    and bh: "builder_heap ?st = builder_heap st @ [builder_heap ?st ! length (builder_heap st)]"
    and bs: "builds ?st = builds st"
    by (simp_all add: copy_def Let_def)
  have new: "\<forall>a \<in> snd ` set (recipes (builder_heap ?st ! length (builder_heap st))).
      a < length (step_heap ?st)"
    unfolding len copy_new_builder by (auto dest!: set_zip_rightD)
  have old: "\<forall>x \<in> set (builder_heap st). \<forall>a \<in> snd ` set (recipes x). a < length (step_heap ?st)"
    using assms(1) unfolding len wf_state_def by fastforce
  have reg: "\<forall>as \<in> snd ` set (builds ?st). \<forall>x \<in> set as. x < length (builder_heap ?st)"
    using assms(1) unfolding bs wf_state_def copy_lengths by fastforce
  have "\<forall>x \<in> set (builder_heap ?st). \<forall>a \<in> snd ` set (recipes x). a < length (step_heap ?st)"
    using old new by (subst bh) auto
  with reg show ?thesis unfolding wf_state_def by blast
qed


lemma fst_steps_of: "map fst (steps_of st b) = map fst (recipes (builder_heap st ! b))"
  by (simp add: steps_of_def case_prod_beta)

lemma add_fresh:
  "name s \<notin> fst ` set (recipes (builder_heap st ! b)) \<Longrightarrow> add st b s = Inr (add_state st b s)"
  by (simp add: add_def add_state_def Let_def)

lemma add_duplicate:
  "name s \<in> fst ` set (recipes (builder_heap st ! b)) \<Longrightarrow>
   add st b s = Inl (DuplicateStepError (name s))"
  by (simp add: add_def Let_def)

lemma add_state_simps:
  "length (builder_heap (add_state st b s)) = length (builder_heap st)"
  "builds (add_state st b s) = builds st"
  "step_heap (add_state st b s) = step_heap st @ [s]"
  by (simp_all add: add_state_def)

lemma add_state_builder:
  "b < length (builder_heap st) \<Longrightarrow>
   builder_heap (add_state st b s) ! b =
     (builder_heap st ! b)\<lparr>recipes := recipes (builder_heap st ! b) @ [(name s, length (step_heap st))]\<rparr>"
  "x \<noteq> b \<Longrightarrow> builder_heap (add_state st b s) ! x = builder_heap st ! x"
  by (simp_all add: add_state_def)

lemma add_state_steps_of:
  assumes "wf_state st" "b < length (builder_heap st)"
  shows "steps_of (add_state st b s) b = steps_of st b @ [(name s, s)]"
  using steps_of_old[OF wf_stateD[OF assms], of "[s]"] assms(2)
  by (simp add: steps_of_def add_state_def)

lemma add_state_steps_of_other:
  assumes "wf_state st" "x < length (builder_heap st)" "x \<noteq> b"
  shows "steps_of (add_state st b s) x = steps_of st x"
  using steps_of_old[OF wf_stateD[OF assms(1,2)], of "[s]"] assms(3)
  by (simp add: steps_of_def add_state_def)

lemma add_state_graph_of_other:
  assumes "wf_state st" "x < length (builder_heap st)" "x \<noteq> b"
  shows "graph_of (add_state st b s) x = graph_of st x"
  using add_state_steps_of_other[OF assms] add_state_builder(2)[OF assms(3)]
  by (simp add: graph_of_def)

lemma add_state_wf:
  assumes "wf_state st" "b < length (builder_heap st)"
  shows "wf_state (add_state st b s)"
proof -
  let ?st = "add_state st b s"
  have "\<forall>a \<in> snd ` set (recipes y). a < length (step_heap ?st)"
    if "y \<in> set (builder_heap ?st)" for y
  proof -
    from that obtain x where x: "x < length (builder_heap st)" "y = builder_heap ?st ! x"
      by (metis in_set_conv_nth add_state_simps(1))
    have old: "\<forall>a \<in> snd ` set (recipes (builder_heap st ! x)). a < length (step_heap st)"
      using wf_stateD[OF assms(1) x(1)] .
    show ?thesis
    proof (cases "x = b")
      case True
      with x old show ?thesis
        by (auto simp: add_state_builder(1)[OF assms(2)] add_state_simps less_Suc_eq)
    next
      case False
      with x old show ?thesis
        by (auto simp: add_state_builder(2) add_state_simps less_Suc_eq)
    qed
  qed
  moreover have "\<forall>as \<in> snd ` set (builds ?st). \<forall>x \<in> set as. x < length (builder_heap ?st)"
    using assms(1) unfolding wf_state_def add_state_simps by blast
  ultimately show ?thesis unfolding wf_state_def by blast
qed

lemma add_all_props:
  assumes "b < length (builder_heap st)" "wf_state st" "distinct (map name ss)"
    "set (map name ss) \<inter> fst ` set (steps_of st b) = {}"
  shows "\<exists>st'. add_all st b ss = Inr st' \<and> wf_state st'
    \<and> steps_of st' b = steps_of st b @ map (\<lambda>s. (name s, s)) ss
    \<and> length (builder_heap st') = length (builder_heap st)
    \<and> builds st' = builds st
    \<and> platform (builder_heap st' ! b) = platform (builder_heap st ! b)
    \<and> b_version (builder_heap st' ! b) = b_version (builder_heap st ! b)
    \<and> (\<forall>x < length (builder_heap st). x \<noteq> b \<longrightarrow> graph_of st' x = graph_of st x)"
  using assms
proof (induction ss arbitrary: st)
  case Nil
  then show ?case by simp
next
  case (Cons s ss)
  let ?st = "add_state st b s"
  have fresh: "name s \<notin> fst ` set (recipes (builder_heap st ! b))"
    using Cons.prems(4) fst_steps_of[of st b] by (metis IntI empty_iff list.set_intros(1) list.set_map list.simps(9))
  have a: "add st b s = Inr ?st" using fresh by (rule add_fresh)
  have v: "b < length (builder_heap ?st)" using Cons.prems(1) by (simp add: add_state_simps)
  have w: "wf_state ?st" using Cons.prems(2,1) by (rule add_state_wf)
  have so: "steps_of ?st b = steps_of st b @ [(name s, s)]"
    using Cons.prems(2,1) by (rule add_state_steps_of)
  have d: "distinct (map name ss)" using Cons.prems(3) by simp
  have dj: "set (map name ss) \<inter> fst ` set (steps_of ?st b) = {}"
    using Cons.prems(3,4) unfolding so by auto
  from Cons.IH[OF v w d dj] obtain st' where st':
    "add_all ?st b ss = Inr st'" "wf_state st'"
    "steps_of st' b = steps_of ?st b @ map (\<lambda>s. (name s, s)) ss"
    "length (builder_heap st') = length (builder_heap ?st)"
    "builds st' = builds ?st"
    "platform (builder_heap st' ! b) = platform (builder_heap ?st ! b)"
    "b_version (builder_heap st' ! b) = b_version (builder_heap ?st ! b)"
    "\<forall>x < length (builder_heap ?st). x \<noteq> b \<longrightarrow> graph_of st' x = graph_of ?st x"
    by blast
  have oth: "\<forall>x < length (builder_heap st). x \<noteq> b \<longrightarrow> graph_of st' x = graph_of st x"
    using st'(8) add_state_graph_of_other[OF Cons.prems(2)] by (simp add: add_state_simps)
  show ?case
    using a st'(1-7) oth so
    by (simp add: add_state_simps add_state_builder(1)[OF Cons.prems(1)])
qed


lemma register_variant_lookup:
  "map_of (register_variant r p a) p = Some ((case map_of r p of None \<Rightarrow> [] | Some as \<Rightarrow> as) @ [a])"
  by (induction r p a rule: register_variant.induct) auto

lemma register_variant_members:
  "as' \<in> snd ` set (register_variant r p a) \<Longrightarrow> x \<in> set as' \<Longrightarrow>
   x = a \<or> (\<exists>as \<in> snd ` set r. x \<in> set as)"
  by (induction r p a rule: register_variant.induct) (auto split: if_splits)

lemma builds_add_builder_wf:
  assumes "wf_state st" "b < length (builder_heap st)"
  shows "wf_state (builds_add_builder st p b)"
proof -
  have "x < length (builder_heap st)"
    if "as' \<in> snd ` set (register_variant (builds st) p b)" "x \<in> set as'" for as' x
    using register_variant_members[OF that] assms unfolding wf_state_def by blast
  with assms(1) show ?thesis
    unfolding wf_state_def builds_add_builder_def by simp
qed

lemma builds_add_builder_simps:
  "step_heap (builds_add_builder st p b) = step_heap st"
  "builder_heap (builds_add_builder st p b) = builder_heap st"
  "graph_of (builds_add_builder st p b) x = graph_of st x"
  "map_of (builds (builds_add_builder st p b)) p
     = Some ((case map_of (builds st) p of None \<Rightarrow> [] | Some as \<Rightarrow> as) @ [b])"
  by (simp_all add: builds_add_builder_def graph_of_def steps_of_def register_variant_lookup)

lemma override_step_name: "name (override_step ov s) = name s"
  by (simp add: override_step_def split: option.splits)

lemma override_step_twice:
  "override_step [(k, v2, c2)] (override_step [(k, v1, c1)] s) = override_step [(k, v2, c2)] s"
  by (simp add: override_step_def split: option.splits)

text \<open>One round of lines 989 to 1002: copy the last builder, register the copy.\<close>

lemma copy_version_register:
  assumes wf: "wf_state st" and b: "b < length (builder_heap st)"
    and reg: "map_of (builds st) p = Some as"
    and st': "st' = builds_add_builder (fst (copy_version st b v c)) p (snd (copy_version st b v c))"
  shows "wf_state st'"
    and "snd (copy_version st b v c) = length (builder_heap st)"
    and "length (builder_heap st') = Suc (length (builder_heap st))"
    and "\<forall>x < length (builder_heap st). graph_of st' x = graph_of st x"
    and "graph_of st' (length (builder_heap st)) =
      \<lparr>g_platform = g_platform (graph_of st b), g_version = v,
       g_steps = map (\<lambda>(n, s). (n, override_step [(''python'', v, c)] s)) (g_steps (graph_of st b))\<rparr>"
    and "map_of (builds st') p = Some (as @ [length (builder_heap st)])"
proof -
  let ?ov = "\<lparr>ov_version = Some v, ov_steps = [(''python'', v, c)]\<rparr>"
  let ?c = "fst (copy st b ?ov)"
  have a: "snd (copy_version st b v c) = length (builder_heap st)"
    by (simp add: copy_version_def copy_address)
  then show "snd (copy_version st b v c) = length (builder_heap st)" .
  have s: "st' = builds_add_builder ?c p (length (builder_heap st))"
    using st' a by (simp add: copy_version_def)
  have wc: "wf_state ?c" using wf b by (rule copy_wf)
  show "wf_state st'"
    unfolding s by (rule builds_add_builder_wf[OF wc]) (simp add: copy_lengths)
  show "length (builder_heap st') = Suc (length (builder_heap st))"
    unfolding s by (simp add: builds_add_builder_simps copy_lengths)
  show "\<forall>x < length (builder_heap st). graph_of st' x = graph_of st x"
    unfolding s by (simp add: builds_add_builder_simps copy_graph_of_old[OF wf])
  show "graph_of st' (length (builder_heap st)) =
      \<lparr>g_platform = g_platform (graph_of st b), g_version = v,
       g_steps = map (\<lambda>(n, s). (n, override_step [(''python'', v, c)] s)) (g_steps (graph_of st b))\<rparr>"
    unfolding s builds_add_builder_simps
    using copy_steps_of_new[of st b ?ov] copy_new_builder[of st b ?ov]
    by (simp add: graph_of_def)
  show "map_of (builds st') p = Some (as @ [length (builder_heap st)])"
    unfolding s by (simp add: builds_add_builder_simps copy_builds reg)
qed

lemma linux_adds_distinct: "distinct (map name (linux_adds v))"
  by (simp add: linux_adds_def)

lemma linux_graph_first:
  "\<lparr>g_platform = ''linux'', g_version = ''3.10.16'',
    g_steps = map (\<lambda>s. (name s, s)) (linux_adds ''3.10.16'')\<rparr>
   = linux_graph ''3.10.16'' ''401e6a504a956c8f0aab76c4f3ad9df601a83eb1''"
  by (simp add: linux_graph_def linux_adds_def override_step_def)

lemma linux_graph_override:
  "\<lparr>g_platform = g_platform (linux_graph v c), g_version = v',
    g_steps = map (\<lambda>(n, s). (n, override_step [(''python'', v', c')] s)) (g_steps (linux_graph v c))\<rparr>
   = linux_graph v' c'"
  by (simp add: linux_graph_def override_step_twice)


lemma linux_module_loaded:
  "\<exists>st. linux_module = Inr st \<and> wf_state st \<and> length (builder_heap st) = 4
     \<and> variants st ''linux'' =
        [linux_graph ''3.10.16'' ''401e6a504a956c8f0aab76c4f3ad9df601a83eb1'',
         linux_graph ''3.11.11'' ''acf539109b024d3c5f1fc63d6e7f08cd294ba56d'',
         linux_graph ''3.12.8'' ''8872c7a124c6970833e0bde4f25d6d7d61c6af6e'',
         linux_graph ''3.13.1'' ''4b0c2a49a848c3c5d611416099636262a0b9090f'']"
proof -
  define st1 where "st1 =
    \<lparr>step_heap = [],
     builder_heap = [\<lparr>platform = ''linux'', b_version = ''3.10.16'',
                      populate_env_ref = Some ''populate_env'', recipes = []\<rparr>],
     builds = [(''linux'', [0])]\<rparr>"
  have ba: "builds_add empty_state ''linux'' (Some ''populate_env'') ''3.10.16'' = (st1, 0)"
    by (simp add: builds_add_def empty_state_def st1_def)
  have w1: "wf_state st1" by (simp add: wf_state_def st1_def)
  have f1: "0 < length (builder_heap st1)" "steps_of st1 0 = []"
    "b_version (builder_heap st1 ! 0) = ''3.10.16''" "platform (builder_heap st1 ! 0) = ''linux''"
    "builds st1 = [(''linux'', [0])]" "length (builder_heap st1) = 1"
    by (simp_all add: st1_def steps_of_def)
  have dj: "set (map name (linux_adds ''3.10.16'')) \<inter> fst ` set (steps_of st1 0) = {}"
    by (simp add: f1)
  from add_all_props[OF f1(1) w1 linux_adds_distinct dj] obtain st2 where st2:
    "add_all st1 0 (linux_adds ''3.10.16'') = Inr st2" "wf_state st2"
    "steps_of st2 0 = map (\<lambda>s. (name s, s)) (linux_adds ''3.10.16'')"
    "length (builder_heap st2) = 1" "builds st2 = [(''linux'', [0])]"
    "platform (builder_heap st2 ! 0) = ''linux''" "b_version (builder_heap st2 ! 0) = ''3.10.16''"
    by (auto simp: f1)
  have g2: "graph_of st2 0 = linux_graph ''3.10.16'' ''401e6a504a956c8f0aab76c4f3ad9df601a83eb1''"
    using st2 linux_graph_first by (simp add: graph_of_def)
  have reg2: "map_of (builds st2) ''linux'' = Some [0]" by (simp add: st2)
  have b2: "0 < length (builder_heap st2)" by (simp add: st2)

  define st3 where "st3 = builds_add_builder
      (fst (copy_version st2 0 ''3.11.11'' ''acf539109b024d3c5f1fc63d6e7f08cd294ba56d'')) ''linux''
      (snd (copy_version st2 0 ''3.11.11'' ''acf539109b024d3c5f1fc63d6e7f08cd294ba56d''))"
  note r3 = copy_version_register[OF st2(2) b2 reg2 st3_def]
  have a3: "snd (copy_version st2 0 ''3.11.11'' ''acf539109b024d3c5f1fc63d6e7f08cd294ba56d'') = 1"
    using r3(2) st2(4) by simp
  have l3: "length (builder_heap st3) = 2" using r3(3) st2(4) by simp
  have g30: "graph_of st3 0 = linux_graph ''3.10.16'' ''401e6a504a956c8f0aab76c4f3ad9df601a83eb1''"
    using r3(4)[rule_format, of 0] g2 st2(4) by simp
  have g31: "graph_of st3 1 = linux_graph ''3.11.11'' ''acf539109b024d3c5f1fc63d6e7f08cd294ba56d''"
    using r3(5) g2 st2(4) linux_graph_override by simp
  have reg3: "map_of (builds st3) ''linux'' = Some [0, 1]" using r3(6) st2(4) by simp
  have b3: "1 < length (builder_heap st3)" by (simp add: l3)

  define st4 where "st4 = builds_add_builder
      (fst (copy_version st3 1 ''3.12.8'' ''8872c7a124c6970833e0bde4f25d6d7d61c6af6e'')) ''linux''
      (snd (copy_version st3 1 ''3.12.8'' ''8872c7a124c6970833e0bde4f25d6d7d61c6af6e''))"
  note r4 = copy_version_register[OF r3(1) b3 reg3 st4_def]
  have a4: "snd (copy_version st3 1 ''3.12.8'' ''8872c7a124c6970833e0bde4f25d6d7d61c6af6e'') = 2"
    using r4(2) l3 by simp
  have l4: "length (builder_heap st4) = 3" using r4(3) l3 by simp
  have g40: "graph_of st4 0 = linux_graph ''3.10.16'' ''401e6a504a956c8f0aab76c4f3ad9df601a83eb1''"
    using r4(4)[rule_format, of 0] g30 l3 by simp
  have g41: "graph_of st4 1 = linux_graph ''3.11.11'' ''acf539109b024d3c5f1fc63d6e7f08cd294ba56d''"
    using r4(4)[rule_format, of 1] g31 l3 by simp
  have g42: "graph_of st4 2 = linux_graph ''3.12.8'' ''8872c7a124c6970833e0bde4f25d6d7d61c6af6e''"
    using r4(5) g31 l3 linux_graph_override by simp
  have reg4: "map_of (builds st4) ''linux'' = Some [0, 1, 2]" using r4(6) l3 by simp
  have b4: "2 < length (builder_heap st4)" by (simp add: l4)

  define st5 where "st5 = builds_add_builder
      (fst (copy_version st4 2 ''3.13.1'' ''4b0c2a49a848c3c5d611416099636262a0b9090f'')) ''linux''
      (snd (copy_version st4 2 ''3.13.1'' ''4b0c2a49a848c3c5d611416099636262a0b9090f''))"
  note r5 = copy_version_register[OF r4(1) b4 reg4 st5_def]
  have l5: "length (builder_heap st5) = 4" using r5(3) l4 by simp
  have g50: "graph_of st5 0 = linux_graph ''3.10.16'' ''401e6a504a956c8f0aab76c4f3ad9df601a83eb1''"
    using r5(4)[rule_format, of 0] g40 l4 by simp
  have g51: "graph_of st5 1 = linux_graph ''3.11.11'' ''acf539109b024d3c5f1fc63d6e7f08cd294ba56d''"
    using r5(4)[rule_format, of 1] g41 l4 by simp
  have g52: "graph_of st5 2 = linux_graph ''3.12.8'' ''8872c7a124c6970833e0bde4f25d6d7d61c6af6e''"
    using r5(4)[rule_format, of 2] g42 l4 by simp
  have g53: "graph_of st5 3 = linux_graph ''3.13.1'' ''4b0c2a49a848c3c5d611416099636262a0b9090f''"
    using r5(5) g42 l4 linux_graph_override by simp
  have reg5: "map_of (builds st5) ''linux'' = Some [0, 1, 2, 3]" using r5(6) l4 by simp

  have lm: "linux_module = Inr st5"
    unfolding linux_module_def
    apply (simp only: ba prod.case fst_conv snd_conv f1(3) st2(1) sum.case split_beta)
    apply (simp only: st3_def[symmetric])
    apply (simp only: a3)
    apply (simp only: st4_def[symmetric])
    apply (simp only: a4)
    apply (simp only: st5_def[symmetric])
    done
  have "variants st5 ''linux'' =
        [linux_graph ''3.10.16'' ''401e6a504a956c8f0aab76c4f3ad9df601a83eb1'',
         linux_graph ''3.11.11'' ''acf539109b024d3c5f1fc63d6e7f08cd294ba56d'',
         linux_graph ''3.12.8'' ''8872c7a124c6970833e0bde4f25d6d7d61c6af6e'',
         linux_graph ''3.13.1'' ''4b0c2a49a848c3c5d611416099636262a0b9090f'']"
    by (simp only: variants_def reg5 option.case list.map g50 g51 g52 g53)
  with lm r5(1) l5 show ?thesis by blast
qed

lemma linux_variants_eq:
  "linux_variants =
        [linux_graph ''3.10.16'' ''401e6a504a956c8f0aab76c4f3ad9df601a83eb1'',
         linux_graph ''3.11.11'' ''acf539109b024d3c5f1fc63d6e7f08cd294ba56d'',
         linux_graph ''3.12.8'' ''8872c7a124c6970833e0bde4f25d6d7d61c6af6e'',
         linux_graph ''3.13.1'' ''4b0c2a49a848c3c5d611416099636262a0b9090f'']"
proof -
  from linux_module_loaded obtain st where lm: "linux_module = Inr st"
    and v: "variants st ''linux'' =
        [linux_graph ''3.10.16'' ''401e6a504a956c8f0aab76c4f3ad9df601a83eb1'',
         linux_graph ''3.11.11'' ''acf539109b024d3c5f1fc63d6e7f08cd294ba56d'',
         linux_graph ''3.12.8'' ''8872c7a124c6970833e0bde4f25d6d7d61c6af6e'',
         linux_graph ''3.13.1'' ''4b0c2a49a848c3c5d611416099636262a0b9090f'']"
    by blast
  show ?thesis by (simp only: linux_variants_def lm sum.case v)
qed


lemma copy_new_addresses:
  "a \<in> snd ` set (recipes (builder_heap (fst (copy st b ov)) ! length (builder_heap st))) \<Longrightarrow>
   length (step_heap st) \<le> a"
  unfolding copy_new_builder by (auto dest!: set_zip_rightD)

lemma steps_of_write_other:
  assumes "a \<notin> snd ` set (recipes (builder_heap st ! b))"
  shows "steps_of (st\<lparr>step_heap := (step_heap st)[a := s]\<rparr>) b = steps_of st b"
proof -
  have "map (\<lambda>(n, x). (n, (step_heap st)[a := s] ! x)) (recipes (builder_heap st ! b))
      = map (\<lambda>(n, x). (n, step_heap st ! x)) (recipes (builder_heap st ! b))"
  proof (rule map_cong[OF refl])
    fix p assume p: "p \<in> set (recipes (builder_heap st ! b))"
    then have "snd p \<noteq> a" using assms by force
    then show "(case p of (n, x) \<Rightarrow> (n, (step_heap st)[a := s] ! x))
        = (case p of (n, x) \<Rightarrow> (n, step_heap st ! x))"
      by (cases p) (simp add: nth_list_update)
  qed
  then show ?thesis by (simp add: steps_of_def)
qed

lemma graph_of_write_other:
  assumes "a \<notin> snd ` set (recipes (builder_heap st ! b))"
  shows "graph_of (st\<lparr>step_heap := (step_heap st)[a := s]\<rparr>) b = graph_of st b"
  using steps_of_write_other[OF assms] by (simp add: graph_of_def)

lemma graph_of_builder_write_other:
  "x \<noteq> b \<Longrightarrow> graph_of (st\<lparr>builder_heap := (builder_heap st)[x := y]\<rparr>) b = graph_of st b"
  by (simp add: graph_of_def steps_of_def)

lemma copy_original_untouched:
  assumes wf: "wf_state st" and b: "b < length (builder_heap st)"
  shows "\<forall>a < length (step_heap st). step_heap (fst (copy st b ov)) ! a = step_heap st ! a"
    and "\<forall>x < length (builder_heap st). builder_heap (fst (copy st b ov)) ! x = builder_heap st ! x"
    and "\<forall>x < length (builder_heap st). graph_of (fst (copy st b ov)) x = graph_of st x"
  using copy_step_heap_old copy_builder_heap_old copy_graph_of_old[OF wf] by blast+

lemma copy_reflects_overrides:
  "graph_of (fst (copy st b ov)) (snd (copy st b ov)) =
     \<lparr>g_platform = g_platform (graph_of st b),
      g_version = (case ov_version ov of None \<Rightarrow> g_version (graph_of st b) | Some v \<Rightarrow> v),
      g_steps = map (\<lambda>(n, s). (n, override_step (ov_steps ov) s)) (g_steps (graph_of st b))\<rparr>"
  using copy_steps_of_new[of st b ov] copy_new_builder[of st b ov]
  by (simp add: graph_of_def copy_address split: option.splits)

lemma copy_isolated:
  assumes wf: "wf_state st" and b: "b < length (builder_heap st)"
  shows "\<forall>a \<in> snd ` set (recipes (builder_heap (fst (copy st b ov)) ! snd (copy st b ov))). \<forall>s.
           graph_of ((fst (copy st b ov))\<lparr>step_heap := (step_heap (fst (copy st b ov)))[a := s]\<rparr>) b
             = graph_of st b"
    and "\<forall>y. graph_of ((fst (copy st b ov))
              \<lparr>builder_heap := (builder_heap (fst (copy st b ov)))[snd (copy st b ov) := y]\<rparr>) b
             = graph_of st b"
    and "\<forall>s st''. add (fst (copy st b ov)) (snd (copy st b ov)) s = Inr st'' \<longrightarrow>
           graph_of st'' b = graph_of st b"
proof -
  let ?c = "fst (copy st b ov)"
  have keep: "graph_of ?c b = graph_of st b" using copy_graph_of_old[OF wf b] .
  have rb: "builder_heap ?c ! b = builder_heap st ! b" using copy_builder_heap_old[OF b] .
  have ne: "length (builder_heap st) \<noteq> b" using b by simp
  show "\<forall>a \<in> snd ` set (recipes (builder_heap ?c ! snd (copy st b ov))). \<forall>s.
           graph_of (?c\<lparr>step_heap := (step_heap ?c)[a := s]\<rparr>) b = graph_of st b"
  proof (intro ballI allI)
    fix a s assume "a \<in> snd ` set (recipes (builder_heap ?c ! snd (copy st b ov)))"
    then have "length (step_heap st) \<le> a"
      using copy_new_addresses[of a st b ov] by (simp add: copy_address)
    then have "a \<notin> snd ` set (recipes (builder_heap ?c ! b))"
      using wf_stateD[OF wf b] unfolding rb by auto
    from graph_of_write_other[OF this] keep
    show "graph_of (?c\<lparr>step_heap := (step_heap ?c)[a := s]\<rparr>) b = graph_of st b" by simp
  qed
  show "\<forall>y. graph_of (?c\<lparr>builder_heap := (builder_heap ?c)[snd (copy st b ov) := y]\<rparr>) b
             = graph_of st b"
    using graph_of_builder_write_other[OF ne] keep by (simp add: copy_address)
  show "\<forall>s st''. add ?c (snd (copy st b ov)) s = Inr st'' \<longrightarrow> graph_of st'' b = graph_of st b"
  proof (intro allI impI)
    fix s st'' assume a: "add ?c (snd (copy st b ov)) s = Inr st''"
    then have "st'' = add_state ?c (length (builder_heap st)) s"
      by (auto simp: add_def add_state_def Let_def copy_address split: if_splits)
    moreover have "graph_of (add_state ?c (length (builder_heap st)) s) b = graph_of ?c b"
      using add_state_graph_of_other[OF copy_wf[OF wf b], where x=b and b="length (builder_heap st)"] b
      by (simp add: copy_lengths)
    ultimately show "graph_of st'' b = graph_of st b" using keep by simp
  qed
qed

text \<open>
  C4. For every well-formed store, every graph \<open>b\<close> in it and every set of overrides,
  \<open>copy\<close> leaves every step object and every builder object that existed before as it
  was, so the original graph reads the same; the graph it returns has the same step
  names in the same order, with the overridden download metadata and the overridden
  graph-wide version. No later write through the copy reaches the original: overwriting
  any step object of the copy, overwriting the copy's builder object, or registering a
  step in the copy with \<open>add\<close> leaves the original graph as it was.
\<close>

theorem copy_leaves_original_unchanged:
  "wf_state st \<and> b < length (builder_heap st) \<longrightarrow>
    (\<forall>a < length (step_heap st). step_heap (fst (copy st b ov)) ! a = step_heap st ! a)
    \<and> (\<forall>x < length (builder_heap st). builder_heap (fst (copy st b ov)) ! x = builder_heap st ! x)
    \<and> graph_of (fst (copy st b ov)) b = graph_of st b
    \<and> graph_of (fst (copy st b ov)) (snd (copy st b ov)) =
        \<lparr>g_platform = g_platform (graph_of st b),
         g_version = (case ov_version ov of None \<Rightarrow> g_version (graph_of st b) | Some v \<Rightarrow> v),
         g_steps = map (\<lambda>(n, s). (n, override_step (ov_steps ov) s)) (g_steps (graph_of st b))\<rparr>
    \<and> (\<forall>a \<in> snd ` set (recipes (builder_heap (fst (copy st b ov)) ! snd (copy st b ov))). \<forall>s.
           graph_of ((fst (copy st b ov))\<lparr>step_heap := (step_heap (fst (copy st b ov)))[a := s]\<rparr>) b
             = graph_of st b)
    \<and> (\<forall>y. graph_of ((fst (copy st b ov))
              \<lparr>builder_heap := (builder_heap (fst (copy st b ov)))[snd (copy st b ov) := y]\<rparr>) b
             = graph_of st b)
    \<and> (\<forall>s st''. add (fst (copy st b ov)) (snd (copy st b ov)) s = Inr st'' \<longrightarrow>
           graph_of st'' b = graph_of st b)"
proof (intro impI, elim conjE)
  assume wf: "wf_state st" and b: "b < length (builder_heap st)"
  note o = copy_original_untouched[OF wf b, of ov]
  note i = copy_isolated[OF wf b, of ov]
  from o(3) b have "graph_of (fst (copy st b ov)) b = graph_of st b" by blast
  with o(1,2) copy_reflects_overrides[of st b ov] i
  show "(\<forall>a < length (step_heap st). step_heap (fst (copy st b ov)) ! a = step_heap st ! a)
    \<and> (\<forall>x < length (builder_heap st). builder_heap (fst (copy st b ov)) ! x = builder_heap st ! x)
    \<and> graph_of (fst (copy st b ov)) b = graph_of st b
    \<and> graph_of (fst (copy st b ov)) (snd (copy st b ov)) =
        \<lparr>g_platform = g_platform (graph_of st b),
         g_version = (case ov_version ov of None \<Rightarrow> g_version (graph_of st b) | Some v \<Rightarrow> v),
         g_steps = map (\<lambda>(n, s). (n, override_step (ov_steps ov) s)) (g_steps (graph_of st b))\<rparr>
    \<and> (\<forall>a \<in> snd ` set (recipes (builder_heap (fst (copy st b ov)) ! snd (copy st b ov))). \<forall>s.
           graph_of ((fst (copy st b ov))\<lparr>step_heap := (step_heap (fst (copy st b ov)))[a := s]\<rparr>) b
             = graph_of st b)
    \<and> (\<forall>y. graph_of ((fst (copy st b ov))
              \<lparr>builder_heap := (builder_heap (fst (copy st b ov)))[snd (copy st b ov) := y]\<rparr>) b
             = graph_of st b)
    \<and> (\<forall>s st''. add (fst (copy st b ov)) (snd (copy st b ov)) s = Inr st'' \<longrightarrow>
           graph_of st'' b = graph_of st b)"
    by (intro conjI)
qed


theorem copy_leaves_original_unchanged_witness:
  "wf_state demo_state \<and> 0 < length (builder_heap demo_state)
   \<and> graph_of (fst (copy demo_state 0 demo_overrides)) 0 = graph_of demo_state 0
   \<and> step_version (graph_of demo_state 0) ''a'' = Some ''1.0''
   \<and> step_version (graph_of (fst (copy demo_state 0 demo_overrides))
         (snd (copy demo_state 0 demo_overrides))) ''a'' = Some ''2.0''
   \<and> g_version (graph_of (fst (copy demo_state 0 demo_overrides))
         (snd (copy demo_state 0 demo_overrides))) = ''2.0''"
proof -
  have h: "wf_state demo_state" "0 < length (builder_heap demo_state)"
    by (simp_all add: wf_state_def demo_state_def)
  from copy_leaves_original_unchanged[of demo_state 0 demo_overrides] h
  have 1: "graph_of (fst (copy demo_state 0 demo_overrides)) 0 = graph_of demo_state 0"
    and 2: "graph_of (fst (copy demo_state 0 demo_overrides)) (snd (copy demo_state 0 demo_overrides)) =
        \<lparr>g_platform = g_platform (graph_of demo_state 0),
         g_version = (case ov_version demo_overrides of
                        None \<Rightarrow> g_version (graph_of demo_state 0) | Some v \<Rightarrow> v),
         g_steps = map (\<lambda>(n, s). (n, override_step (ov_steps demo_overrides) s))
                     (g_steps (graph_of demo_state 0))\<rparr>"
    by blast+
  have 3: "step_version (graph_of demo_state 0) ''a'' = Some ''1.0''"
    by (simp add: step_version_def graph_of_def steps_of_def demo_state_def)
  have 4: "step_version
       \<lparr>g_platform = g_platform (graph_of demo_state 0),
         g_version = (case ov_version demo_overrides of
                        None \<Rightarrow> g_version (graph_of demo_state 0) | Some v \<Rightarrow> v),
         g_steps = map (\<lambda>(n, s). (n, override_step (ov_steps demo_overrides) s))
                     (g_steps (graph_of demo_state 0))\<rparr> ''a'' = Some ''2.0''"
    by (simp add: step_version_def graph_of_def steps_of_def demo_state_def demo_overrides_def
        override_step_def)
  have 5: "(case ov_version demo_overrides of
              None \<Rightarrow> g_version (graph_of demo_state 0) | Some v \<Rightarrow> v) = ''2.0''"
    by (simp add: demo_overrides_def)
  from h 1 3 4 5 show ?thesis unfolding 2 by simp
qed

lemma linux_adds_edges:
  "\<forall>s \<in> set (linux_adds v). \<forall>d \<in> set (wait_on s).
     d \<in> set (map name (linux_adds v))
     \<and> index_of (map name (linux_adds v)) d < index_of (map name (linux_adds v)) (name s)"
  by (simp add: linux_adds_def)

lemma override_step_wait_on: "wait_on (override_step ov s) = wait_on s"
  by (simp add: override_step_def split: option.splits)

lemma linux_graph_names: "step_names (linux_graph v c) = map name (linux_adds ''3.10.16'')"
  by (simp add: step_names_def linux_graph_def comp_def)

lemma linux_graph_stepD:
  "(n, s) \<in> set (g_steps (linux_graph v c)) \<Longrightarrow>
   \<exists>s0 \<in> set (linux_adds ''3.10.16''). n = name s0 \<and> wait_on s = wait_on s0"
  by (auto simp: linux_graph_def override_step_wait_on)

lemma linux_graph_no_dangling:
  assumes "(n, s) \<in> set (g_steps (linux_graph v c))" "d \<in> set (wait_on s)"
  shows "d \<in> set (step_names (linux_graph v c))"
  using linux_graph_stepD[OF assms(1)] assms(2) linux_adds_edges[of "''3.10.16''"]
  unfolding linux_graph_names by metis

lemma linux_graph_acyclic: "acyclic (wait_rel (linux_graph v c))"
proof -
  let ?rank = "index_of (map name (linux_adds ''3.10.16''))"
  have "wait_rel (linux_graph v c) \<subseteq> (measure ?rank)\<inverse>"
  proof
    fix e assume "e \<in> wait_rel (linux_graph v c)"
    then obtain n d s where e: "e = (n, d)" "(n, s) \<in> set (g_steps (linux_graph v c))"
      "d \<in> set (wait_on s)"
      by (auto simp: wait_rel_def)
    from linux_graph_stepD[OF e(2)] e(3) linux_adds_edges[of "''3.10.16''"]
    have "?rank d < ?rank n" by metis
    with e(1) show "e \<in> (measure ?rank)\<inverse>" by simp
  qed
  moreover have "acyclic ((measure ?rank)\<inverse>)"
    by (simp add: wf_acyclic)
  ultimately show ?thesis by (rule acyclic_subset[rotated])
qed

lemma linux_variants_members:
  "g \<in> set linux_variants \<Longrightarrow> \<exists>v c. g = linux_graph v c"
  unfolding linux_variants_eq by auto

text \<open>
  C3. Loading the module registers graphs under \<open>linux\<close>, and in each of them every name
  in a step's \<open>wait_on\<close> is the name of a registered step and the \<open>wait_on\<close> relation is
  acyclic: every edge points to a step registered earlier.
\<close>

theorem linux_graph_closed_and_acyclic:
  "linux_variants \<noteq> []
   \<and> (\<forall>g \<in> set linux_variants.
        (\<forall>(n, s) \<in> set (g_steps g). \<forall>d \<in> set (wait_on s). d \<in> set (step_names g))
        \<and> acyclic (wait_rel g))"
proof -
  have ne: "linux_variants \<noteq> []" unfolding linux_variants_eq by simp
  have "(\<forall>(n, s) \<in> set (g_steps g). \<forall>d \<in> set (wait_on s). d \<in> set (step_names g))
        \<and> acyclic (wait_rel g)" if "g \<in> set linux_variants" for g
  proof -
    from that obtain v c where g: "g = linux_graph v c" using linux_variants_members by blast
    show ?thesis unfolding g using linux_graph_no_dangling linux_graph_acyclic by blast
  qed
  with ne show ?thesis by blast
qed


theorem linux_graph_closed_and_acyclic_witness:
  "hd linux_variants \<in> set linux_variants
   \<and> (\<exists>s. (''krb5'', s) \<in> set (g_steps (hd linux_variants)) \<and> ''openssl'' \<in> set (wait_on s))
   \<and> ''openssl'' \<in> set (step_names (hd linux_variants))
   \<and> acyclic (wait_rel (hd linux_variants))"
proof -
  have m: "hd linux_variants \<in> set linux_variants"
    by (simp add: linux_variants_eq)
  have "\<exists>s. map_of (g_steps (hd linux_variants)) ''krb5'' = Some s \<and> ''openssl'' \<in> set (wait_on s)"
    by (simp add: linux_variants_eq linux_graph_def linux_adds_def override_step_def)
  then obtain s where s: "(''krb5'', s) \<in> set (g_steps (hd linux_variants))"
    "''openssl'' \<in> set (wait_on s)"
    using map_of_SomeD by fast
  note r = linux_graph_closed_and_acyclic[THEN conjunct2, THEN bspec, OF m]
  note c = r[THEN conjunct1, THEN bspec, OF s(1)] and a = r[THEN conjunct2]
  from c have "\<forall>d \<in> set (wait_on s). d \<in> set (step_names (hd linux_variants))"
    by (simp only: prod.case)
  then have o: "''openssl'' \<in> set (step_names (hd linux_variants))" using s(2) by (rule bspec)
  have e: "\<exists>s. (''krb5'', s) \<in> set (g_steps (hd linux_variants)) \<and> ''openssl'' \<in> set (wait_on s)"
    by (rule exI[of _ s]) (simp add: s)
  from m e o a show ?thesis by simp
qed

lemma override_step_other: "name s \<noteq> k \<Longrightarrow> override_step [(k, v, c)] s = s"
  by (simp add: override_step_def)

lemma map_of_override_other:
  "n \<noteq> k \<Longrightarrow>
   map_of (map (\<lambda>s. (name s, override_step [(k, v, c)] s)) xs) n
     = map_of (map (\<lambda>s. (name s, s)) xs) n"
  by (induction xs) (auto simp: override_step_other)

lemma linux_graph_other_steps:
  "n \<noteq> ''python'' \<Longrightarrow>
   map_of (g_steps (linux_graph v c)) n = map_of (g_steps (linux_graph v' c')) n"
  by (simp add: linux_graph_def map_of_override_other)

lemma linux_graph_python:
  "step_version (linux_graph v c) ''python'' = Some v"
  "step_checksum (linux_graph v c) ''python'' = Some c"
  by (simp_all add: step_version_def step_checksum_def linux_graph_def linux_adds_def
      override_step_def)

text \<open>
  C5. The four graphs registered under \<open>linux\<close> have the graph-wide versions 3.10.16,
  3.11.11, 3.12.8 and 3.13.1. In each, the download version of the \<open>python\<close> step is the
  graph's version and its checksum the one given for that version; every other step is
  the same in all four graphs.
\<close>

theorem linux_versions:
  "map g_version linux_variants = [''3.10.16'', ''3.11.11'', ''3.12.8'', ''3.13.1'']
   \<and> map (\<lambda>g. step_version g ''python'') linux_variants
       = [Some ''3.10.16'', Some ''3.11.11'', Some ''3.12.8'', Some ''3.13.1'']
   \<and> map (\<lambda>g. step_checksum g ''python'') linux_variants
       = [Some ''401e6a504a956c8f0aab76c4f3ad9df601a83eb1'',
          Some ''acf539109b024d3c5f1fc63d6e7f08cd294ba56d'',
          Some ''8872c7a124c6970833e0bde4f25d6d7d61c6af6e'',
          Some ''4b0c2a49a848c3c5d611416099636262a0b9090f'']
   \<and> (\<forall>g \<in> set linux_variants. \<forall>n. n \<noteq> ''python'' \<longrightarrow>
         map_of (g_steps g) n = map_of (g_steps (hd linux_variants)) n)"
proof -
  have 1: "map g_version linux_variants = [''3.10.16'', ''3.11.11'', ''3.12.8'', ''3.13.1'']"
    unfolding linux_variants_eq by (simp add: linux_graph_def)
  have 2: "map (\<lambda>g. step_version g ''python'') linux_variants
       = [Some ''3.10.16'', Some ''3.11.11'', Some ''3.12.8'', Some ''3.13.1'']"
    unfolding linux_variants_eq by (simp add: linux_graph_python)
  have 3: "map (\<lambda>g. step_checksum g ''python'') linux_variants
       = [Some ''401e6a504a956c8f0aab76c4f3ad9df601a83eb1'',
          Some ''acf539109b024d3c5f1fc63d6e7f08cd294ba56d'',
          Some ''8872c7a124c6970833e0bde4f25d6d7d61c6af6e'',
          Some ''4b0c2a49a848c3c5d611416099636262a0b9090f'']"
    unfolding linux_variants_eq by (simp add: linux_graph_python)
  have 4: "map_of (g_steps g) n = map_of (g_steps (hd linux_variants)) n"
    if "g \<in> set linux_variants" "n \<noteq> ''python''" for g n
  proof -
    from that(1) obtain v c where g: "g = linux_graph v c" using linux_variants_members by blast
    have h: "hd linux_variants = linux_graph ''3.10.16'' ''401e6a504a956c8f0aab76c4f3ad9df601a83eb1''"
      unfolding linux_variants_eq by simp
    show ?thesis unfolding g h using that(2) by (rule linux_graph_other_steps)
  qed
  show ?thesis by (intro conjI ballI allI impI 1 2 3 4; assumption)
qed

theorem linux_versions_witness:
  "linux_variants ! 3 \<in> set linux_variants \<and> ''openssl'' \<noteq> ''python''
   \<and> step_version (linux_variants ! 3) ''python'' = Some ''3.13.1''
   \<and> step_version (hd linux_variants) ''openssl'' = Some ''3.4.0''
   \<and> step_version (linux_variants ! 3) ''openssl'' = Some ''3.4.0''"
proof -
  have m: "linux_variants ! 3 \<in> set linux_variants" "length linux_variants = 4"
    by (simp_all add: linux_variants_eq)
  have n: "''openssl'' \<noteq> ''python''" by simp
  note o = linux_versions[THEN conjunct2, THEN conjunct2, THEN conjunct2, THEN bspec, OF m(1),
      THEN spec, THEN mp, OF n]
  note p = linux_versions[THEN conjunct2, THEN conjunct1]
  have "step_version (linux_variants ! 3) ''python''
      = map (\<lambda>g. step_version g ''python'') linux_variants ! 3"
    using m(2) by simp
  also have "\<dots> = Some ''3.13.1''" unfolding p by simp
  finally have p3: "step_version (linux_variants ! 3) ''python'' = Some ''3.13.1''" .
  have h: "step_version (hd linux_variants) ''openssl'' = Some ''3.4.0''"
    by (simp add: linux_variants_eq step_version_def linux_graph_def linux_adds_def override_step_def)
  from o h have "step_version (linux_variants ! 3) ''openssl'' = Some ''3.4.0''"
    by (simp add: step_version_def)
  with m(1) p3 h show ?thesis by simp
qed

section \<open>Properties of the pipeline and the scheduler\<close>

lemma ct_differs_iff: "ct_differs acc a b \<longleftrightarrow> acc \<or> a \<noteq> b"
  by (induction acc a b rule: ct_differs.induct) auto

lemma ct_equal_iff: "ct_equal a b \<longleftrightarrow> a = b"
  by (simp add: ct_equal_def ct_differs_iff)

lemma fetch_artifact_events:
  "e \<in> set (fst (fetch_artifact w d)) \<Longrightarrow> \<exists>u. e = Fetch u"
  by (auto simp: fetch_artifact_def Let_def split: option.splits)

lemma build_stage_invoke:
  "Invoke n \<in> set (fst (build_stage w s ds)) \<Longrightarrow> n = name s"
  by (simp add: build_stage_def)

lemma run_step_mismatch:
  assumes "download s = Some d" "snd (fetch_artifact w d) = Some a" "digest w a \<noteq> checksum d"
  shows "run_step w g s =
    ([EnsureDirs (derive_dirs (root_dir w) (g_platform g) (g_version g) (name s))]
       @ fst (fetch_artifact w d),
     Error \<lparr>be_step = name s, be_phase = Verify_phase, be_cause = ChecksumMismatchError\<rparr>)"
  using assms by (simp add: run_step_def Let_def ct_equal_iff)

lemma checksum_failsD:
  assumes "checksum_fails w s"
  obtains d a where "download s = Some d" "snd (fetch_artifact w d) = Some a"
    "digest w a \<noteq> checksum d"
  using assms by (auto simp: checksum_fails_def split: option.splits)

lemma run_step_invoke_name:
  "Invoke n \<in> set (fst (run_step w g s)) \<Longrightarrow> n = name s"
  by (auto simp: run_step_def Let_def build_stage_def split: option.splits if_splits
      dest: fetch_artifact_events)

text \<open>
  C2. For a step that declares a download, when an artifact is fetched and its digest is
  not the declared checksum, the pipeline of the step ends with \<open>ChecksumMismatchError\<close>
  in the verify phase; nothing is extracted and no build procedure is invoked.
\<close>

theorem checksum_mismatch_fails_step:
  "checksum_fails w s \<longrightarrow>
     snd (run_step w g s)
       = Error \<lparr>be_step = name s, be_phase = Verify_phase, be_cause = ChecksumMismatchError\<rparr>
     \<and> (\<forall>n. Invoke n \<notin> set (fst (run_step w g s)))
     \<and> (\<forall>p. Extract p \<notin> set (fst (run_step w g s)))"
proof
  assume "checksum_fails w s"
  then obtain d a where h: "download s = Some d" "snd (fetch_artifact w d) = Some a"
    "digest w a \<noteq> checksum d"
    by (rule checksum_failsD)
  note r = run_step_mismatch[OF h, of g]
  have "\<forall>n. Invoke n \<notin> set (fst (run_step w g s))"
    unfolding r using fetch_artifact_events[of _ w d] by auto
  moreover have "\<forall>p. Extract p \<notin> set (fst (run_step w g s))"
    unfolding r using fetch_artifact_events[of _ w d] by auto
  ultimately show "snd (run_step w g s)
       = Error \<lparr>be_step = name s, be_phase = Verify_phase, be_cause = ChecksumMismatchError\<rparr>
     \<and> (\<forall>n. Invoke n \<notin> set (fst (run_step w g s)))
     \<and> (\<forall>p. Extract p \<notin> set (fst (run_step w g s)))"
    unfolding r by simp
qed

lemma openssl_step_checksum_fails:
  "checksum_fails witness_world (hd (linux_adds ''3.10.16''))"
  by (simp add: checksum_fails_def linux_adds_def fetch_artifact_def witness_world_def
      witness_urls_def subst_version_def Let_def)

theorem checksum_mismatch_fails_step_witness:
  "checksum_fails witness_world (hd (linux_adds ''3.10.16''))
   \<and> snd (run_step witness_world (hd linux_variants) (hd (linux_adds ''3.10.16'')))
       = Error \<lparr>be_step = ''openssl'', be_phase = Verify_phase, be_cause = ChecksumMismatchError\<rparr>
   \<and> Invoke ''openssl''
       \<notin> set (fst (run_step witness_world (hd linux_variants) (hd (linux_adds ''3.10.16''))))"
proof -
  have n: "name (hd (linux_adds ''3.10.16'')) = ''openssl''"
    by (simp add: linux_adds_def)
  from checksum_mismatch_fails_step
    [of witness_world "hd (linux_adds ''3.10.16'')" "hd linux_variants"]
    openssl_step_checksum_fails
  show ?thesis by (simp add: n)
qed

lemma map_of_named:
  assumes "map_of (map (\<lambda>s. (name s, f s)) xs) n = Some s'" "\<And>s. name (f s) = name s"
  shows "name s' = n"
  using assms(1) by (induction xs) (auto simp: assms(2) split: if_splits)

lemma linux_graph_named:
  "map_of (g_steps (linux_graph v c)) n = Some s \<Longrightarrow> name s = n"
  unfolding linux_graph_def by (simp, erule map_of_named) (rule override_step_name)

lemma run_named_invoke:
  assumes "Invoke m \<in> set (fst (run_named w g n))"
    and "\<And>s. map_of (g_steps g) n = Some s \<Longrightarrow> name s = n"
  shows "m = n"
  using assms by (auto simp: run_named_def split: option.splits dest: run_step_invoke_name)

lemma run_named_mismatch:
  assumes "map_of (g_steps g) n = Some s" "checksum_fails w s"
  shows "snd (run_named w g n)
    = Error \<lparr>be_step = name s, be_phase = Verify_phase, be_cause = ChecksumMismatchError\<rparr>"
proof -
  from assms(2) obtain d a where h: "download s = Some d" "snd (fetch_artifact w d) = Some a"
    "digest w a \<noteq> checksum d"
    by (rule checksum_failsD)
  show ?thesis using assms(1) run_step_mismatch[OF h, of g] by (simp add: run_named_def)
qed

lemma linux_graph_chain:
  "deps (linux_graph v c) ''openssl'' = []"
  "''openssl'' \<in> set (deps (linux_graph v c) ''krb5'')"
  "''krb5'' \<in> set (deps (linux_graph v c) ''python'')"
  "''openssl'' \<in> set (deps (linux_graph v c) ''python'')"
  by (simp_all add: deps_def linux_graph_def linux_adds_def override_step_def)

lemma linux_graph_chain_names:
  "''openssl'' \<in> set (step_names (linux_graph v c))"
  "''krb5'' \<in> set (step_names (linux_graph v c))"
  "''python'' \<in> set (step_names (linux_graph v c))"
  unfolding linux_graph_names by (simp_all add: linux_adds_def)

lemma apply_action_inv:
  assumes inv: "openssl_inv sc" and a: "apply_action w g bound sc a = Some sc'"
    and d0: "deps g ''openssl'' = []"
    and d1: "''openssl'' \<in> set (deps g ''krb5'')"
    and d2: "''krb5'' \<in> set (deps g ''python'')"
    and nc: "\<And>n s. map_of (g_steps g) n = Some s \<Longrightarrow> name s = n"
    and f: "snd (run_named w g ''openssl'') \<noteq> Done"
  shows "openssl_inv sc'"
proof (cases a)
  case (Make_ready n)
  with a have c: "status sc n = Pending" "\<forall>d \<in> set (deps g n). status sc d = Succeeded"
    and s: "sc' = sc\<lparr>status := (status sc)(n := Ready)\<rparr>"
    by (auto simp: list_all_iff split: if_splits)
  have "n \<noteq> ''krb5''" using c(2) d1 inv by (auto simp: openssl_inv_def)
  moreover have "n \<noteq> ''python''" using c(2) d2 inv by (auto simp: openssl_inv_def)
  ultimately show ?thesis using inv unfolding s openssl_inv_def by simp
next
  case (Skip n)
  with a have c: "list_ex (\<lambda>d. status sc d = Failed \<or> status sc d = Skipped) (deps g n)"
    and s: "sc' = sc\<lparr>status := (status sc)(n := Skipped)\<rparr>"
    by (auto split: if_splits)
  have "n \<noteq> ''openssl''" using c d0 by auto
  then show ?thesis using inv unfolding s openssl_inv_def by simp
next
  case (Dispatch n)
  with a have c: "status sc n = Ready"
    and s: "sc' = sc\<lparr>status := (status sc)(n := Running)\<rparr>"
    by (auto split: if_splits)
  have "n \<noteq> ''krb5''" "n \<noteq> ''python''" using c inv by (auto simp: openssl_inv_def)
  then show ?thesis using inv unfolding s openssl_inv_def by simp
next
  case (Finish n)
  with a have c: "status sc n = Running" and s: "sc' = finish_step w g n sc"
    by (auto split: if_splits)
  have n: "n \<noteq> ''krb5''" "n \<noteq> ''python''" using c inv by (auto simp: openssl_inv_def)
  have t: "Invoke ''krb5'' \<notin> set (fst (run_named w g n))"
    "Invoke ''python'' \<notin> set (fst (run_named w g n))"
    using run_named_invoke[of _ w g n] nc n by blast+
  show ?thesis
  proof (cases "snd (run_named w g n)")
    case Done
    with f have "n \<noteq> ''openssl''" by auto
    with Done n t inv show ?thesis
      unfolding s openssl_inv_def finish_step_def by simp
  next
    case (Error e)
    with n t inv show ?thesis
      unfolding s openssl_inv_def finish_step_def by simp
  qed
qed

lemma run_actions_inv:
  assumes "run_actions w g bound sc as = Some sc'" "openssl_inv sc"
    and d0: "deps g ''openssl'' = []"
    and d1: "''openssl'' \<in> set (deps g ''krb5'')"
    and d2: "''krb5'' \<in> set (deps g ''python'')"
    and nc: "\<And>n s. map_of (g_steps g) n = Some s \<Longrightarrow> name s = n"
    and f: "snd (run_named w g ''openssl'') \<noteq> Done"
  shows "openssl_inv sc'"
  using assms(1,2)
proof (induction as arbitrary: sc)
  case Nil
  then show ?case by simp
next
  case (Cons a as)
  from Cons.prems(1) obtain sc1 where 1: "apply_action w g bound sc a = Some sc1"
    and 2: "run_actions w g bound sc1 as = Some sc'"
    by (auto split: option.splits)
  from apply_action_inv[OF Cons.prems(2) 1 d0 d1 d2 nc f] have "openssl_inv sc1" .
  with Cons.IH[OF 2] show ?case .
qed

lemma initial_inv: "openssl_inv initial_sched"
  by (simp add: openssl_inv_def initial_sched_def)

lemma map_of_report:
  "n \<in> set (step_names g) \<Longrightarrow> map_of (report g sc) n = Some (status sc n)"
  unfolding report_def by (induction "step_names g") (auto simp: map_of_map_restrict)


text \<open>
  C1. In every graph registered under \<open>linux\<close>, \<open>krb5\<close> waits on \<open>openssl\<close> and \<open>python\<close>
  waits on \<open>krb5\<close> and \<open>openssl\<close>. Whatever the concurrency bound and whatever order the
  transitions are taken in, a finished run in which the checksum of \<open>openssl\<close> does not
  verify reports \<open>openssl\<close> as \<open>Failed\<close> and \<open>krb5\<close> and \<open>python\<close> as \<open>Skipped\<close>, and the
  build procedures of \<open>krb5\<close> and \<open>python\<close> are never invoked.
\<close>

theorem openssl_failure_skips_dependents:
  "g \<in> set linux_variants \<and> map_of (g_steps g) ''openssl'' = Some s \<and> checksum_fails w s
     \<and> run_actions w g bound initial_sched as = Some sc \<and> finished g sc \<longrightarrow>
   ''openssl'' \<in> set (deps g ''krb5'')
   \<and> ''krb5'' \<in> set (deps g ''python'') \<and> ''openssl'' \<in> set (deps g ''python'')
   \<and> map_of (report g sc) ''openssl'' = Some Failed
   \<and> map_of (report g sc) ''krb5'' = Some Skipped
   \<and> map_of (report g sc) ''python'' = Some Skipped
   \<and> Invoke ''krb5'' \<notin> set (trace sc) \<and> Invoke ''python'' \<notin> set (trace sc)"
proof (intro impI, elim conjE)
  assume m: "g \<in> set linux_variants" and o: "map_of (g_steps g) ''openssl'' = Some s"
    and cf: "checksum_fails w s"
    and r: "run_actions w g bound initial_sched as = Some sc" and fin: "finished g sc"
  from m obtain v c where g: "g = linux_graph v c" using linux_variants_members by blast
  have f: "snd (run_named w g ''openssl'') \<noteq> Done"
    using run_named_mismatch[OF o cf] by simp
  have nc: "\<And>n s. map_of (g_steps g) n = Some s \<Longrightarrow> name s = n"
    unfolding g by (rule linux_graph_named)
  note ch = linux_graph_chain[of v c, folded g]
  note nm = linux_graph_chain_names[of v c, folded g]
  have inv: "openssl_inv sc"
    using run_actions_inv[OF r initial_inv ch(1,2,3) nc f] .
  have t: "status sc n \<noteq> Pending \<and> status sc n \<noteq> Ready \<and> status sc n \<noteq> Running"
    if "n \<in> set (step_names g)" for n
    using fin that by (simp add: finished_def list_all_iff)
  have 1: "status sc ''openssl'' = Failed"
    using t[OF nm(1)] inv by (cases "status sc ''openssl''") (simp_all add: openssl_inv_def)
  have 2: "status sc ''krb5'' = Skipped"
    using t[OF nm(2)] inv by (auto simp: openssl_inv_def)
  have 3: "status sc ''python'' = Skipped"
    using t[OF nm(3)] inv by (auto simp: openssl_inv_def)
  from inv have 4: "Invoke ''krb5'' \<notin> set (trace sc)" "Invoke ''python'' \<notin> set (trace sc)"
    by (simp_all add: openssl_inv_def)
  show "''openssl'' \<in> set (deps g ''krb5'')
   \<and> ''krb5'' \<in> set (deps g ''python'') \<and> ''openssl'' \<in> set (deps g ''python'')
   \<and> map_of (report g sc) ''openssl'' = Some Failed
   \<and> map_of (report g sc) ''krb5'' = Some Skipped
   \<and> map_of (report g sc) ''python'' = Some Skipped
   \<and> Invoke ''krb5'' \<notin> set (trace sc) \<and> Invoke ''python'' \<notin> set (trace sc)"
    using ch(2,3,4) 1 2 3 4 by (simp add: map_of_report[OF nm(1)] map_of_report[OF nm(2)]
        map_of_report[OF nm(3)])
qed

lemma witness_deps:
  "deps (linux_graph ''3.10.16'' ''401e6a504a956c8f0aab76c4f3ad9df601a83eb1'') ''openssl'' = []"
  "deps (linux_graph ''3.10.16'' ''401e6a504a956c8f0aab76c4f3ad9df601a83eb1'') ''openssl-fips-module'' = [''openssl'']"
  "deps (linux_graph ''3.10.16'' ''401e6a504a956c8f0aab76c4f3ad9df601a83eb1'') ''libxcrypt'' = []"
  "deps (linux_graph ''3.10.16'' ''401e6a504a956c8f0aab76c4f3ad9df601a83eb1'') ''XZ'' = []"
  "deps (linux_graph ''3.10.16'' ''401e6a504a956c8f0aab76c4f3ad9df601a83eb1'') ''SQLite'' = []"
  "deps (linux_graph ''3.10.16'' ''401e6a504a956c8f0aab76c4f3ad9df601a83eb1'') ''bzip2'' = []"
  "deps (linux_graph ''3.10.16'' ''401e6a504a956c8f0aab76c4f3ad9df601a83eb1'') ''gdbm'' = []"
  "deps (linux_graph ''3.10.16'' ''401e6a504a956c8f0aab76c4f3ad9df601a83eb1'') ''ncurses'' = []"
  "deps (linux_graph ''3.10.16'' ''401e6a504a956c8f0aab76c4f3ad9df601a83eb1'') ''libffi'' = []"
  "deps (linux_graph ''3.10.16'' ''401e6a504a956c8f0aab76c4f3ad9df601a83eb1'') ''zlib'' = []"
  "deps (linux_graph ''3.10.16'' ''401e6a504a956c8f0aab76c4f3ad9df601a83eb1'') ''uuid'' = []"
  "deps (linux_graph ''3.10.16'' ''401e6a504a956c8f0aab76c4f3ad9df601a83eb1'') ''krb5'' = [''openssl'']"
  "deps (linux_graph ''3.10.16'' ''401e6a504a956c8f0aab76c4f3ad9df601a83eb1'') ''readline'' = [''ncurses'']"
  "deps (linux_graph ''3.10.16'' ''401e6a504a956c8f0aab76c4f3ad9df601a83eb1'') ''tirpc'' = [''krb5'']"
  "deps (linux_graph ''3.10.16'' ''401e6a504a956c8f0aab76c4f3ad9df601a83eb1'') ''openldap'' = [''krb5'']"
  "deps (linux_graph ''3.10.16'' ''401e6a504a956c8f0aab76c4f3ad9df601a83eb1'') ''cyrus-sasl'' = [''openldap'']"
  "deps (linux_graph ''3.10.16'' ''401e6a504a956c8f0aab76c4f3ad9df601a83eb1'') ''libyaml'' = []"
  "deps (linux_graph ''3.10.16'' ''401e6a504a956c8f0aab76c4f3ad9df601a83eb1'') ''libsodium'' = []"
  "deps (linux_graph ''3.10.16'' ''401e6a504a956c8f0aab76c4f3ad9df601a83eb1'') ''libmd'' = []"
  "deps (linux_graph ''3.10.16'' ''401e6a504a956c8f0aab76c4f3ad9df601a83eb1'') ''libbsd'' = [''libmd'']"
  "deps (linux_graph ''3.10.16'' ''401e6a504a956c8f0aab76c4f3ad9df601a83eb1'') ''zeromq'' = [''libsodium'', ''libbsd'']"
  "deps (linux_graph ''3.10.16'' ''401e6a504a956c8f0aab76c4f3ad9df601a83eb1'') ''python'' = [''libyaml'', ''openssl'', ''libxcrypt'', ''XZ'', ''SQLite'', ''bzip2'', ''gdbm'', ''ncurses'', ''libffi'', ''zlib'', ''uuid'', ''krb5'', ''readline'', ''tirpc'', ''openldap'', ''cyrus-sasl'', ''zeromq'']"
  "deps (linux_graph ''3.10.16'' ''401e6a504a956c8f0aab76c4f3ad9df601a83eb1'') ''relenv-finalize'' = [''python'', ''openssl-fips-module'']"
  by (simp_all add: deps_def linux_graph_def linux_adds_def override_step_def)

lemma witness_outcomes:
  "snd (run_named witness_world (linux_graph ''3.10.16'' ''401e6a504a956c8f0aab76c4f3ad9df601a83eb1'') ''libxcrypt'') = Done"
  "snd (run_named witness_world (linux_graph ''3.10.16'' ''401e6a504a956c8f0aab76c4f3ad9df601a83eb1'') ''XZ'') = Done"
  "snd (run_named witness_world (linux_graph ''3.10.16'' ''401e6a504a956c8f0aab76c4f3ad9df601a83eb1'') ''SQLite'') = Done"
  "snd (run_named witness_world (linux_graph ''3.10.16'' ''401e6a504a956c8f0aab76c4f3ad9df601a83eb1'') ''bzip2'') = Done"
  "snd (run_named witness_world (linux_graph ''3.10.16'' ''401e6a504a956c8f0aab76c4f3ad9df601a83eb1'') ''gdbm'') = Done"
  "snd (run_named witness_world (linux_graph ''3.10.16'' ''401e6a504a956c8f0aab76c4f3ad9df601a83eb1'') ''ncurses'') = Done"
  "snd (run_named witness_world (linux_graph ''3.10.16'' ''401e6a504a956c8f0aab76c4f3ad9df601a83eb1'') ''libffi'') = Done"
  "snd (run_named witness_world (linux_graph ''3.10.16'' ''401e6a504a956c8f0aab76c4f3ad9df601a83eb1'') ''zlib'') = Done"
  "snd (run_named witness_world (linux_graph ''3.10.16'' ''401e6a504a956c8f0aab76c4f3ad9df601a83eb1'') ''uuid'') = Done"
  "snd (run_named witness_world (linux_graph ''3.10.16'' ''401e6a504a956c8f0aab76c4f3ad9df601a83eb1'') ''readline'') = Done"
  "snd (run_named witness_world (linux_graph ''3.10.16'' ''401e6a504a956c8f0aab76c4f3ad9df601a83eb1'') ''libyaml'') = Done"
  "snd (run_named witness_world (linux_graph ''3.10.16'' ''401e6a504a956c8f0aab76c4f3ad9df601a83eb1'') ''libsodium'') = Done"
  "snd (run_named witness_world (linux_graph ''3.10.16'' ''401e6a504a956c8f0aab76c4f3ad9df601a83eb1'') ''libmd'') = Done"
  "snd (run_named witness_world (linux_graph ''3.10.16'' ''401e6a504a956c8f0aab76c4f3ad9df601a83eb1'') ''libbsd'') = Done"
  "snd (run_named witness_world (linux_graph ''3.10.16'' ''401e6a504a956c8f0aab76c4f3ad9df601a83eb1'') ''zeromq'') = Done"
  by (simp_all add: run_named_def run_step_def build_stage_def fetch_artifact_def linux_graph_def
      linux_adds_def override_step_def witness_world_def witness_urls_def subst_version_def
      ct_equal_iff Let_def)

lemma witness_names:
  "step_names (linux_graph ''3.10.16'' ''401e6a504a956c8f0aab76c4f3ad9df601a83eb1'') =
    [''openssl'', ''openssl-fips-module'', ''libxcrypt'', ''XZ'', ''SQLite'', ''bzip2'', ''gdbm'', ''ncurses'', ''libffi'', ''zlib'', ''uuid'', ''krb5'', ''readline'', ''tirpc'', ''openldap'', ''cyrus-sasl'', ''libyaml'', ''libsodium'', ''libmd'', ''libbsd'', ''zeromq'', ''python'', ''relenv-finalize'']"
  by (simp add: linux_graph_names linux_adds_def)

lemma witness_openssl_step:
  "map_of (g_steps (linux_graph ''3.10.16'' ''401e6a504a956c8f0aab76c4f3ad9df601a83eb1'')) ''openssl''
     = Some (hd (linux_adds ''3.10.16''))"
  by (simp add: linux_graph_def linux_adds_def override_step_def)

lemma witness_openssl_outcome:
  "snd (run_named witness_world (linux_graph ''3.10.16'' ''401e6a504a956c8f0aab76c4f3ad9df601a83eb1'')
      ''openssl'')
   = Error \<lparr>be_step = ''openssl'', be_phase = Verify_phase, be_cause = ChecksumMismatchError\<rparr>"
  using run_named_mismatch[OF witness_openssl_step openssl_step_checksum_fails]
  by (simp add: linux_adds_def)

lemma witness_run:
  "\<exists>sc. run_actions witness_world
          (linux_graph ''3.10.16'' ''401e6a504a956c8f0aab76c4f3ad9df601a83eb1'') 2
          initial_sched witness_actions = Some sc
        \<and> finished (linux_graph ''3.10.16'' ''401e6a504a956c8f0aab76c4f3ad9df601a83eb1'') sc"
  by (simp add: witness_actions_def run3_def initial_sched_def finish_step_def running_count_def
      finished_def witness_deps witness_outcomes witness_openssl_outcome witness_names)

theorem openssl_failure_skips_dependents_witness:
  "hd linux_variants \<in> set linux_variants
   \<and> map_of (g_steps (hd linux_variants)) ''openssl'' = Some (hd (linux_adds ''3.10.16''))
   \<and> checksum_fails witness_world (hd (linux_adds ''3.10.16''))
   \<and> (\<exists>sc. run_actions witness_world (hd linux_variants) 2 initial_sched witness_actions = Some sc
         \<and> finished (hd linux_variants) sc
         \<and> map_of (report (hd linux_variants) sc) ''openssl'' = Some Failed
         \<and> map_of (report (hd linux_variants) sc) ''krb5'' = Some Skipped
         \<and> map_of (report (hd linux_variants) sc) ''python'' = Some Skipped
         \<and> Invoke ''krb5'' \<notin> set (trace sc) \<and> Invoke ''python'' \<notin> set (trace sc))"
proof -
  have h: "hd linux_variants = linux_graph ''3.10.16'' ''401e6a504a956c8f0aab76c4f3ad9df601a83eb1''"
    by (simp add: linux_variants_eq)
  have m: "hd linux_variants \<in> set linux_variants"
    by (simp add: linux_variants_eq)
  have o: "map_of (g_steps (hd linux_variants)) ''openssl'' = Some (hd (linux_adds ''3.10.16''))"
    unfolding h by (rule witness_openssl_step)
  note cf = openssl_step_checksum_fails
  from witness_run obtain sc where
    r: "run_actions witness_world (hd linux_variants) 2 initial_sched witness_actions = Some sc"
    and fin: "finished (hd linux_variants) sc"
    unfolding h by blast
  note c = openssl_failure_skips_dependents
    [of "hd linux_variants" "hd (linux_adds ''3.10.16'')" witness_world 2 witness_actions sc,
     THEN mp, OF conjI[OF m conjI[OF o conjI[OF cf conjI[OF r fin]]]]]
  from c have "map_of (report (hd linux_variants) sc) ''openssl'' = Some Failed"
    "map_of (report (hd linux_variants) sc) ''krb5'' = Some Skipped"
    "map_of (report (hd linux_variants) sc) ''python'' = Some Skipped"
    "Invoke ''krb5'' \<notin> set (trace sc)" "Invoke ''python'' \<notin> set (trace sc)"
    by simp_all
  with r fin have "\<exists>sc. run_actions witness_world (hd linux_variants) 2 initial_sched witness_actions
           = Some sc
         \<and> finished (hd linux_variants) sc
         \<and> map_of (report (hd linux_variants) sc) ''openssl'' = Some Failed
         \<and> map_of (report (hd linux_variants) sc) ''krb5'' = Some Skipped
         \<and> map_of (report (hd linux_variants) sc) ''python'' = Some Skipped
         \<and> Invoke ''krb5'' \<notin> set (trace sc) \<and> Invoke ''python'' \<notin> set (trace sc)"
    by (intro exI[of _ sc]) simp
  with m o cf show ?thesis by simp
qed

end
